theory Spec2Isabelle
  imports Complex_Main "HOL-Library.Sublist"
begin

section \<open>Python values\<close>

text \<open>
  The agents exchange dynamically typed Python values. A class is known by its identity
  and carries its \<^verbatim>\<open>__name__\<close>; an object carries the classes it is an instance of
  (its own class first) and its attributes. Floats are idealised as exact rationals.
\<close>

datatype pyclass = PyClass (cls_id: nat) (cls_name: string)

datatype pyval =
    PNone
  | PBool bool
  | PInt int
  | PFloat rat
  | PStr string
  | PList "pyval list"
  | PDict "(string \<times> pyval) list"
  | PObj "pyclass list" "(string \<times> pyval) list"
  | PCallable nat

text \<open>\<^verbatim>\<open>isinstance(v, C)\<close> for a user-defined class \<open>C\<close>.\<close>

fun isinstance :: "pyval \<Rightarrow> pyclass \<Rightarrow> bool" where
  "isinstance (PObj mro attrs) c = (c \<in> set mro)"
| "isinstance v c = False"

fun is_dict :: "pyval \<Rightarrow> bool" where
  "is_dict (PDict kw) = True"
| "is_dict v = False"

text \<open>
  Type annotations of schema fields, as far as the code inspects them: \<^verbatim>\<open>Any\<close>,
  \<^verbatim>\<open>NoneType\<close>, the built-in classes, a user-defined class, \<^verbatim>\<open>Optional[T]\<close>, a
  \<^verbatim>\<open>typing.Union\<close> of several members, a union written \<^verbatim>\<open>X | Y\<close>, and any other
  subscripted generic, known by its \<^verbatim>\<open>__name__\<close>.
\<close>

datatype pytype =
    TyAny
  | TyNone
  | TyStr
  | TyInt
  | TyFloat
  | TyBool
  | TyClass pyclass
  | TyOptional pytype
  | TyUnion "pytype list"
  | TyPipe "pytype list"
  | TyGeneric string

section \<open>The schema library\<close>

text \<open>
  Modelled from the spec: the schema library (pydantic) that constructs and validates
  model instances is an external collaborator and is not under src/. Following sections
  3, 4.1 and 9 of the specification, a schema is a list of named fields, each with a
  declared type, an optional default and an optional numeric range, and one generic
  validator constructs an instance field by field, reporting one violation per offending
  field in declaration order. A violation is a dictionary with the optional keys
  \<^verbatim>\<open>loc\<close>, \<^verbatim>\<open>type\<close>, \<^verbatim>\<open>msg\<close> and \<^verbatim>\<open>ctx\<close>; the absence of a required value is reported
  with the reserved kind \<^verbatim>\<open>missing\<close> and the message \<^verbatim>\<open>Field required\<close>.
\<close>

datatype loc_item = LStr string | LInt int

record pyd_error =
  e_loc :: "loc_item list option"
  e_type :: "string option"
  e_msg :: "string option"
  e_ctx :: "pyval option"

record field_info =
  annotation :: pytype
  f_default :: "pyval option"
  f_ge :: "rat option"
  f_le :: "rat option"

record pymodel =
  model_class :: pyclass
  model_bases :: "pyclass list"
  model_fields :: "(string \<times> field_info) list"

fun conforms :: "pytype \<Rightarrow> pyval \<Rightarrow> bool" where
  "conforms TyAny v = True"
| "conforms TyStr v = (case v of PStr s \<Rightarrow> True | _ \<Rightarrow> False)"
| "conforms TyInt v = (case v of PInt i \<Rightarrow> True | _ \<Rightarrow> False)"
| "conforms TyFloat v = (case v of PFloat r \<Rightarrow> True | PInt i \<Rightarrow> True | _ \<Rightarrow> False)"
| "conforms TyBool v = (case v of PBool b \<Rightarrow> True | _ \<Rightarrow> False)"
| "conforms (TyClass c) v = isinstance v c"
| "conforms (TyOptional t) v = (v = PNone \<or> conforms t v)"
| "conforms (TyGeneric n) v = True"
| "conforms TyNone v = (v = PNone)"
| "conforms (TyUnion ts) v = list_ex (\<lambda>t. conforms t v) ts"
| "conforms (TyPipe ts) v = list_ex (\<lambda>t. conforms t v) ts"

fun type_kind :: "pytype \<Rightarrow> string" where
  "type_kind TyStr = ''string_type''"
| "type_kind TyInt = ''int_type''"
| "type_kind TyFloat = ''float_type''"
| "type_kind TyBool = ''bool_type''"
| "type_kind (TyClass c) = ''is_instance_of''"
| "type_kind (TyOptional t) = type_kind t"
| "type_kind t = ''value_error''"

definition missing_error :: "string \<Rightarrow> pyd_error" where
  "missing_error n =
     \<lparr>e_loc = Some [LStr n], e_type = Some ''missing'', e_msg = Some ''Field required'',
      e_ctx = None\<rparr>"

definition type_error :: "string \<Rightarrow> pytype \<Rightarrow> pyd_error" where
  "type_error n t =
     \<lparr>e_loc = Some [LStr n], e_type = Some (type_kind t),
      e_msg = Some ''Input should be a valid value of the declared type'', e_ctx = None\<rparr>"

definition range_error :: "string \<Rightarrow> string \<Rightarrow> string \<Rightarrow> rat \<Rightarrow> pyd_error" where
  "range_error n kind key bound =
     \<lparr>e_loc = Some [LStr n], e_type = Some kind,
      e_msg = Some ''Input should be within the declared range'',
      e_ctx = Some (PDict [(key, PFloat bound)])\<rparr>"

fun num_of :: "pyval \<Rightarrow> rat option" where
  "num_of (PInt i) = Some (of_int i)"
| "num_of (PFloat r) = Some r"
| "num_of v = None"

definition below :: "pyval \<Rightarrow> rat option \<Rightarrow> bool" where
  "below v b = (case (num_of v, b) of (Some x, Some g) \<Rightarrow> x < g | _ \<Rightarrow> False)"

definition above :: "pyval \<Rightarrow> rat option \<Rightarrow> bool" where
  "above v b = (case (num_of v, b) of (Some x, Some l) \<Rightarrow> l < x | _ \<Rightarrow> False)"

definition check_field :: "string \<Rightarrow> field_info \<Rightarrow> (string \<times> pyval) list \<Rightarrow> pyd_error + pyval" where
  "check_field n f kw =
     (case map_of kw n of
        None \<Rightarrow> (case f_default f of None \<Rightarrow> Inl (missing_error n) | Some d \<Rightarrow> Inr d)
      | Some v \<Rightarrow>
          if \<not> conforms (annotation f) v then Inl (type_error n (annotation f))
          else if below v (f_ge f) then Inl (range_error n ''greater_than_equal'' ''ge'' (the (f_ge f)))
          else if above v (f_le f) then Inl (range_error n ''less_than_equal'' ''le'' (the (f_le f)))
          else Inr v)"

fun build_fields :: "(string \<times> field_info) list \<Rightarrow> (string \<times> pyval) list \<Rightarrow>
    pyd_error list \<times> (string \<times> pyval) list" where
  "build_fields [] kw = ([], [])"
| "build_fields ((n, f) # fs) kw =
     (case build_fields fs kw of (es, vs) \<Rightarrow>
        (case check_field n f kw of
           Inl e \<Rightarrow> (e # es, vs)
         | Inr v \<Rightarrow> (es, (n, v) # vs)))"

text \<open>\<^verbatim>\<open>model(**kw)\<close>: the new instance, or the violations of a \<^verbatim>\<open>ValidationError\<close>.\<close>

definition construct :: "pymodel \<Rightarrow> (string \<times> pyval) list \<Rightarrow> pyd_error list + pyval" where
  "construct m kw =
     (case build_fields (model_fields m) kw of
        (es, vs) \<Rightarrow> if es = [] then Inr (PObj (model_class m # model_bases m) vs) else Inl es)"

text \<open>\<^verbatim>\<open>inst.model_dump()\<close>: the fields of a model instance as a dictionary.\<close>

fun model_dump :: "pyval \<Rightarrow> pyval" where
  "model_dump (PObj mro attrs) = PDict attrs"
| "model_dump v = v"

section \<open>The Agent base class (src/agents/agent.py)\<close>

record error_item =
  code :: string
  title :: string
  detail :: "string option"
  pointer :: "string option"
  meta :: "(string \<times> pyval option) option"

record error_data =
  d_ok :: bool
  d_errors :: "error_item list"

text \<open>
  The exceptions that leave the validation code. The argument of a \<^verbatim>\<open>ValueError\<close> is
  the dictionary \<^verbatim>\<open>{"ok": False, "errors": [...]}\<close> when there is one.
  \<^verbatim>\<open>ValidationError\<close> is the exception of the schema library with its violations; it
  is a subclass of \<^verbatim>\<open>ValueError\<close> whose argument is no dictionary.
\<close>

datatype pyerr =
    ValueError "error_data option"
  | TypeError string
  | ValidationError "pyd_error list"

record report =
  r_ok :: bool
  r_value :: pyval
  r_errors :: "error_item list"
  r_schema :: pyval

subsection \<open>Strings\<close>

definition lower_char :: "char \<Rightarrow> char" where
  "lower_char c =
     (let n = (of_char c :: nat) in if 65 \<le> n \<and> n \<le> 90 then char_of (n + 32) else c)"

definition lower :: "string \<Rightarrow> string" where
  "lower s = map lower_char s"

definition startswith :: "string \<Rightarrow> string \<Rightarrow> bool" where
  "startswith s p = prefix p s"

definition endswith :: "string \<Rightarrow> string \<Rightarrow> bool" where
  "endswith s p = suffix p s"

fun join :: "string \<Rightarrow> string list \<Rightarrow> string" where
  "join sep [] = []"
| "join sep [x] = x"
| "join sep (x # y # ys) = x @ sep @ join sep (y # ys)"

fun str_nat :: "nat \<Rightarrow> string" where
  "str_nat n =
     (if n < 10 then [char_of (48 + n)] else str_nat (n div 10) @ [char_of (48 + n mod 10)])"

declare str_nat.simps [simp del]

definition str_int :: "int \<Rightarrow> string" where
  "str_int i = (if i < 0 then CHR ''-'' # str_nat (nat (- i)) else str_nat (nat i))"

fun str_loc :: "loc_item \<Rightarrow> string" where
  "str_loc (LStr s) = s"
| "str_loc (LInt i) = str_int i"

subsection \<open>Error normalisation\<close>

definition is_missing :: "pyd_error \<Rightarrow> bool" where
  "is_missing e =
     (let etype = (case e_type e of None \<Rightarrow> [] | Some t \<Rightarrow> t) in
      endswith etype ''.missing'' \<or> etype = ''missing'' \<or>
      startswith (lower (case e_msg e of None \<Rightarrow> [] | Some m \<Rightarrow> m)) ''field required'')"

definition normalize_one :: "string \<Rightarrow> pyd_error \<Rightarrow> error_item" where
  "normalize_one where e =
     (let loc = (case e_loc e of None \<Rightarrow> [] | Some l \<Rightarrow> l);
          ptr = (if loc \<noteq> [] then ''/'' @ join ''/'' (map str_loc loc) else ''/'');
          etype = (case e_type e of None \<Rightarrow> [] | Some t \<Rightarrow> t)
      in \<lparr>code = (if is_missing e then where @ ''.missing'' else where @ ''.validation''),
          title = (if is_missing e then ''Campo requerido ausente''
                   else ''Error de validaci'' @ [CHR 0xC3, CHR 0xB3] @ ''n''),
          detail = Some (case e_msg e of
                           None \<Rightarrow> ''Entrada inv'' @ [CHR 0xC3, CHR 0xA1] @ ''lida''
                         | Some m \<Rightarrow> m),
          pointer = Some ptr,
          meta = Some (etype, e_ctx e)\<rparr>)"

definition normalize_pydantic_errors :: "string \<Rightarrow> pyd_error list \<Rightarrow> error_item list" where
  "normalize_pydantic_errors where ve = map (normalize_one where) ve"

subsection \<open>Validation and lookup\<close>

definition payload_in_empties :: "pyval \<Rightarrow> bool" where
  "payload_in_empties p = (p = PNone \<or> p = PDict [] \<or> p = PList [])"

definition not_supported_item :: "string \<Rightarrow> string \<Rightarrow> error_item" where
  "not_supported_item cls where =
     \<lparr>code = where @ ''.not_supported'',
      title = where @ '' no admitido'',
      detail = Some (cls @ '' no acepta '' @ where @ ''.''),
      pointer = Some (''/'' @ where),
      meta = None\<rparr>"

definition raise_normalized :: "string \<Rightarrow> pyd_error list \<Rightarrow> pyerr" where
  "raise_normalized where ve =
     ValueError (Some \<lparr>d_ok = False, d_errors = normalize_pydantic_errors where ve\<rparr>)"

definition validate_with_model ::
    "string \<Rightarrow> pymodel option \<Rightarrow> pyval \<Rightarrow> string \<Rightarrow> pyerr + pyval" where
  "validate_with_model cls model payload where =
     (case model of
        None \<Rightarrow>
          if \<not> payload_in_empties payload
          then Inl (ValueError (Some \<lparr>d_ok = False, d_errors = [not_supported_item cls where]\<rparr>))
          else Inr PNone
      | Some m \<Rightarrow>
          if isinstance payload (model_class m) then Inr payload
          else if payload = PNone then
            (case construct m [] of
               Inr inst \<Rightarrow> Inr inst
             | Inl ve \<Rightarrow> Inl (raise_normalized where ve))
          else
            (case payload of
               PDict kw \<Rightarrow>
                 (case construct m kw of
                    Inr inst \<Rightarrow> Inr inst
                  | Inl ve \<Rightarrow> Inl (raise_normalized where ve))
             | _ \<Rightarrow> Inl (TypeError (where @ '' debe ser '' @ cls_name (model_class m) @ '', dict o None''))))"

definition fallback_item :: "string \<Rightarrow> error_item" where
  "fallback_item where =
     \<lparr>code = where @ ''.error'', title = ''Error de '' @ where, detail = None,
      pointer = None, meta = None\<rparr>"

definition lookup_with_model ::
    "string \<Rightarrow> pymodel option \<Rightarrow> pyval \<Rightarrow> string \<Rightarrow> pyerr + report" where
  "lookup_with_model cls model payload where =
     (case model of
        None \<Rightarrow>
          if \<not> payload_in_empties payload
          then Inr \<lparr>r_ok = False, r_value = PNone,
                    r_errors = [not_supported_item cls where], r_schema = PNone\<rparr>
          else Inr \<lparr>r_ok = True, r_value = PNone, r_errors = [], r_schema = PNone\<rparr>
      | Some m \<Rightarrow>
          (case validate_with_model cls model payload where of
             Inr inst \<Rightarrow>
               Inr \<lparr>r_ok = True,
                    r_value = (if inst \<noteq> PNone then model_dump inst else PNone),
                    r_errors = [], r_schema = PNone\<rparr>
           | Inl (ValueError args) \<Rightarrow>
               Inr \<lparr>r_ok = False, r_value = PNone,
                    r_errors = (case args of Some d \<Rightarrow> d_errors d | None \<Rightarrow> [fallback_item where]),
                    r_schema = PNone\<rparr>
           | Inl (ValidationError ve) \<Rightarrow>
               Inr \<lparr>r_ok = False, r_value = PNone, r_errors = [fallback_item where],
                    r_schema = PNone\<rparr>
           | Inl (TypeError msg) \<Rightarrow> Inl (TypeError msg)))"

section \<open>The concrete agent schemas (src/agents/tooled.py)\<close>

definition BaseModel :: pyclass where
  "BaseModel = PyClass 0 ''BaseModel''"

definition TooledConfig :: pymodel where
  "TooledConfig =
     \<lparr>model_class = PyClass 1 ''TooledConfig'',
      model_bases = [BaseModel],
      model_fields =
        [(''model'',
            \<lparr>annotation = TyStr, f_default = Some (PStr ''gpt-4o-mini''),
             f_ge = None, f_le = None\<rparr>),
         (''temperature'',
            \<lparr>annotation = TyFloat, f_default = Some (PFloat 0),
             f_ge = Some 0, f_le = Some 2\<rparr>),
         (''max_tokens'',
            \<lparr>annotation = TyInt, f_default = Some (PInt 256),
             f_ge = Some 1, f_le = Some 8192\<rparr>),
         (''lang'',
            \<lparr>annotation = TyStr, f_default = Some (PStr ''es''),
             f_ge = None, f_le = None\<rparr>),
         (''system_prompt'',
            \<lparr>annotation = TyStr,
             f_default = Some (PStr (''Eres un agente '' @ [CHR 0xC3, CHR 0xBA] @
                 ''til. Usa herramientas cuando sea necesario.'')),
             f_ge = None, f_le = None\<rparr>)]\<rparr>"

section \<open>Dependency injection (src/agents/Context.py)\<close>




text \<open>\<^verbatim>\<open>by[k] = v\<close> on an insertion-ordered dictionary: a known key keeps its place.\<close>

fun dict_set :: "('k \<times> 'v) list \<Rightarrow> 'k \<Rightarrow> 'v \<Rightarrow> ('k \<times> 'v) list" where
  "dict_set [] k v = [(k, v)]"
| "dict_set ((k', v') # kvs) k v =
     (if k' = k then (k, v) # kvs else (k', v') # dict_set kvs k v)"






text \<open>\<^verbatim>\<open>getattr(instance, name, None)\<close> and \<^verbatim>\<open>callable\<close>.\<close>

fun getattr :: "pyval \<Rightarrow> string \<Rightarrow> pyval" where
  "getattr (PObj mro attrs) name = (case map_of attrs name of None \<Rightarrow> PNone | Some v \<Rightarrow> v)"
| "getattr v name = PNone"






section \<open>Tools of an agent (src/agents/lib/agent.py)\<close>

definition BaseTool :: pyclass where
  "BaseTool = PyClass 5 ''BaseTool''"

text \<open>\<^verbatim>\<open>t.name\<close> of a tool.\<close>

definition tool_name :: "pyval \<Rightarrow> pyval" where
  "tool_name t = getattr t ''name''"

text \<open>
  \<^verbatim>\<open>_extract_tools_from_deps\<close>: the attributes of a model instance are its fields, in
  the order of their declaration; \<^verbatim>\<open>None\<close> has no tools.
\<close>

definition extract_tools_from_deps :: "pyval \<Rightarrow> pyval list" where
  "extract_tools_from_deps deps_bm =
     (case deps_bm of
        PObj mro attrs \<Rightarrow> filter (\<lambda>val. isinstance val BaseTool) (map snd attrs)
      | _ \<Rightarrow> [])"

text \<open>The comprehension \<^verbatim>\<open>{t.name: t for t in prefer_left}\<close>.\<close>

fun dict_of_tools :: "pyval list \<Rightarrow> (pyval \<times> pyval) list \<Rightarrow> (pyval \<times> pyval) list" where
  "dict_of_tools [] by_name = by_name"
| "dict_of_tools (t # ts) by_name = dict_of_tools ts (dict_set by_name (tool_name t) t)"

fun fill_right :: "pyval list \<Rightarrow> (pyval \<times> pyval) list \<Rightarrow> (pyval \<times> pyval) list" where
  "fill_right [] by_name = by_name"
| "fill_right (t # ts) by_name =
     fill_right ts (if tool_name t \<notin> set (map fst by_name) then dict_set by_name (tool_name t) t else by_name)"

definition merge_tools :: "pyval list \<Rightarrow> pyval list \<Rightarrow> pyval list" where
  "merge_tools prefer_left right = map snd (fill_right right (dict_of_tools prefer_left []))"

text \<open>
  The rule in the words of the specification, first seen wins: of the tools of one name
  only the first in the sequence is kept.
\<close>

fun first_seen_wins :: "pyval list \<Rightarrow> pyval list \<Rightarrow> pyval list" where
  "first_seen_wins seen [] = []"
| "first_seen_wins seen (t # ts) =
     (if tool_name t \<in> set seen then first_seen_wins seen ts
      else t # first_seen_wins (tool_name t # seen) ts)"

text \<open>
  The dictionary of \<^verbatim>\<open>_merge_tools\<close> is well formed when its keys are distinct and every
  tool is stored under its own name.
\<close>

definition keyed :: "(pyval \<times> pyval) list \<Rightarrow> bool" where
  "keyed d \<longleftrightarrow> distinct (map fst d) \<and> (\<forall>(k, t) \<in> set d. k = tool_name t)"

section \<open>Cost tracing (src/agents/simple.py)\<close>

subsection \<open>Token counting and prices\<close>

text \<open>
  The tokenizer library (tiktoken) is external: it is a parameter of the model, absent
  (\<open>None\<close>) when the import failed. A lookup or an encoding that raises is \<open>None\<close>.
\<close>

type_synonym encoding = "string \<Rightarrow> nat list option"

record tiktoken_lib =
  encoding_for_model :: "string \<Rightarrow> encoding option"
  get_encoding :: "string \<Rightarrow> encoding option"

definition normalize_model_for_encoding :: "string \<Rightarrow> string" where
  "normalize_model_for_encoding m =
     (if m = [] then ''gpt-4o-mini''
      else if startswith m ''gpt-4o'' then ''gpt-4o''
      else if startswith m ''gpt-4.1'' then ''gpt-4.1''
      else if startswith m ''o4'' then ''gpt-4o''
      else m)"

definition encoding_for :: "tiktoken_lib option \<Rightarrow> string \<Rightarrow> encoding option" where
  "encoding_for tiktoken m =
     (case tiktoken of
        None \<Rightarrow> None
      | Some lib \<Rightarrow>
          (case encoding_for_model lib (normalize_model_for_encoding m) of
             Some enc \<Rightarrow> Some enc
           | None \<Rightarrow> get_encoding lib ''cl100k_base''))"

definition count_tokens :: "tiktoken_lib option \<Rightarrow> string \<Rightarrow> string \<Rightarrow> int" where
  "count_tokens tiktoken m txt =
     (if txt = [] \<or> tiktoken = None then 0
      else case encoding_for tiktoken m of
             None \<Rightarrow> 0
           | Some enc \<Rightarrow> (case enc txt of Some toks \<Rightarrow> int (length toks) | None \<Rightarrow> 0))"

definition PRICING_PER_1K :: "(string \<times> rat \<times> rat) list" where
  "PRICING_PER_1K =
     [(''gpt-4o-mini'', (15 / 100, 60 / 100)),
      (''gpt-4o'', (5, 15)),
      (''gpt-4.1-mini'', (30 / 100, 120 / 100)),
      (''gpt-4.1'', (5, 15)),
      (''o4-mini'', (30 / 100, 120 / 100)),
      (''o4'', (5, 15))]"

fun first_prefix :: "(string \<times> rat \<times> rat) list \<Rightarrow> string \<Rightarrow> rat \<times> rat" where
  "first_prefix [] model_name = (0, 0)"
| "first_prefix ((key, price) # table) model_name =
     (if startswith model_name key then price else first_prefix table model_name)"

definition match_pricing :: "string \<Rightarrow> rat \<times> rat" where
  "match_pricing model_name =
     (case map_of PRICING_PER_1K model_name of
        Some price \<Rightarrow> price
      | None \<Rightarrow> first_prefix PRICING_PER_1K model_name)"

definition estimate_cost_usd :: "string \<Rightarrow> int \<Rightarrow> int \<Rightarrow> rat" where
  "estimate_cost_usd m prompt_toks completion_toks =
     (case match_pricing m of
        (mi, mo) \<Rightarrow> (of_int prompt_toks / 1000) * mi + (of_int completion_toks / 1000) * mo)"

text \<open>
  \<^verbatim>\<open>int(x)\<close> truncates towards zero. \<^verbatim>\<open>round(x, 8)\<close> rounds to eight decimals, ties to
  the even neighbour; on the exact rationals that stand for floats here.
\<close>

definition py_int :: "rat \<Rightarrow> int" where
  "py_int x = (if 0 \<le> x then \<lfloor>x\<rfloor> else \<lceil>x\<rceil>)"

definition round_half_even :: "rat \<Rightarrow> int" where
  "round_half_even x =
     (let f = \<lfloor>x\<rfloor>; d = x - of_int f in
      if d < 1 / 2 then f else if 1 / 2 < d then f + 1 else if even f then f else f + 1)"

definition round8 :: "rat \<Rightarrow> rat" where
  "round8 x = of_int (round_half_even (x * 100000000)) / 100000000"

subsection \<open>The response of the framework\<close>

text \<open>
  The response is a loosely structured object. The model gives it the shape the handler
  reads: dictionaries whose keys may be absent (\<open>None\<close>), usage blocks that map names to
  integers, and names that are strings.
\<close>

type_synonym usage_dict = "(string \<times> int) list"

record openai_response =
  oa_usage :: "usage_dict option"

record llm_output =
  lo_token_usage :: "usage_dict option"
  lo_usage :: "usage_dict option"
  lo_model :: "string option"
  lo_model_name :: "string option"
  lo_openai_api_response :: "openai_response option"

record response_metadata =
  rm_model :: "string option"
  rm_model_name :: "string option"
  rm_id :: "string option"
  rm_request_id :: "string option"
  rm_token_usage :: "usage_dict option"
  rm_usage :: "usage_dict option"

record message =
  msg_content :: string
  msg_response_metadata :: "response_metadata option"

record generation_info =
  gi_token_usage :: "usage_dict option"
  gi_usage :: "usage_dict option"

record generation =
  gen_message :: "message option"
  gen_generation_info :: "generation_info option"

record llm_result =
  res_llm_output :: "llm_output option"
  res_generations :: "generation list list"

record raw_meta =
  raw_llm_output :: "llm_output option"
  raw_response_message_metadata :: "response_metadata option"
  raw_generation_info :: "generation_info option"
  raw_openai_api_response :: "openai_response option"

definition empty_llm_output :: llm_output where
  "empty_llm_output =
     \<lparr>lo_token_usage = None, lo_usage = None, lo_model = None, lo_model_name = None,
      lo_openai_api_response = None\<rparr>"

definition empty_response_metadata :: response_metadata where
  "empty_response_metadata =
     \<lparr>rm_model = None, rm_model_name = None, rm_id = None, rm_request_id = None,
      rm_token_usage = None, rm_usage = None\<rparr>"

definition empty_generation_info :: generation_info where
  "empty_generation_info = \<lparr>gi_token_usage = None, gi_usage = None\<rparr>"

definition empty_raw :: raw_meta where
  "empty_raw =
     \<lparr>raw_llm_output = None, raw_response_message_metadata = None,
      raw_generation_info = None, raw_openai_api_response = None\<rparr>"

text \<open>Truth values of Python and \<^verbatim>\<open>a or b\<close>, for usage blocks and for strings.\<close>

fun truthy :: "'a list option \<Rightarrow> bool" where
  "truthy None = False"
| "truthy (Some []) = False"
| "truthy (Some (x # xs)) = True"

definition py_or :: "'a list option \<Rightarrow> 'a list option \<Rightarrow> 'a list option" where
  "py_or a b = (if truthy a then a else b)"

text \<open>\<^verbatim>\<open>int(usage.get(key) or other)\<close>.\<close>

definition get_int_or :: "usage_dict \<Rightarrow> string \<Rightarrow> int \<Rightarrow> int" where
  "get_int_or usage key other =
     (case map_of usage key of None \<Rightarrow> other | Some n \<Rightarrow> if n \<noteq> 0 then n else other)"

definition ellipsis :: string where
  "ellipsis = [CHR 0xE2, CHR 0x80, CHR 0xA6]"

subsection \<open>The handler\<close>

text \<open>
  The state of \<^verbatim>\<open>CostTracingHandler\<close> is the in-flight map \<^verbatim>\<open>calls\<close> and the sequence
  \<^verbatim>\<open>finished\<close>. A record is the dictionary that \<^verbatim>\<open>_start_common\<close> creates; the keys
  added at the end (\<^verbatim>\<open>end_time\<close>, \<^verbatim>\<open>latency_ms\<close>, \<^verbatim>\<open>error\<close>) are absent (\<open>None\<close>) before.
  The clock is read by the callbacks; its value is an argument here. The messages sent
  to the module logger go to a buffer outside the handler and are left out.
\<close>

record call =
  c_kind :: string
  c_run_id :: string
  c_parent_run_id :: "string option"
  c_start_time :: rat
  c_model :: "string option"
  c_prompts :: "string list"
  c_prompt_preview :: string
  c_output_preview :: "string option"
  c_prompt_tokens :: int
  c_completion_tokens :: int
  c_total_tokens :: int
  c_cost_usd :: rat
  c_request_id :: "string option"
  c_raw :: raw_meta
  c_end_time :: "rat option"
  c_latency_ms :: "int option"
  c_error :: "string option"

record handler =
  calls :: "string \<rightharpoonup> call"
  finished :: "call list"

definition init_handler :: handler where
  "init_handler = \<lparr>calls = Map.empty, finished = []\<rparr>"

text \<open>\<^verbatim>\<open>d.pop(key, None)\<close>: the value, if any, and the dictionary without the key.\<close>

definition dict_pop :: "('k \<rightharpoonup> 'v) \<Rightarrow> 'k \<Rightarrow> 'v option \<times> ('k \<rightharpoonup> 'v)" where
  "dict_pop d k = (d k, d(k := None))"

definition start_common ::
    "string \<Rightarrow> (string \<times> pyval) list \<Rightarrow> string list \<Rightarrow> string \<Rightarrow> string option \<Rightarrow> rat \<Rightarrow>
     handler \<Rightarrow> handler" where
  "start_common kind serialized ps rid parent t0 h =
     h\<lparr>calls := (calls h)(rid \<mapsto>
         \<lparr>c_kind = kind,
          c_run_id = rid,
          c_parent_run_id = parent,
          c_start_time = t0,
          c_model = None,
          c_prompts = ps,
          c_prompt_preview = (if ps \<noteq> [] then take 200 (hd ps) @ ellipsis else []),
          c_output_preview = None,
          c_prompt_tokens = 0,
          c_completion_tokens = 0,
          c_total_tokens = 0,
          c_cost_usd = 0,
          c_request_id = None,
          c_raw = empty_raw,
          c_end_time = None,
          c_latency_ms = None,
          c_error = None\<rparr>)\<rparr>"

definition on_llm_start ::
    "(string \<times> pyval) list \<Rightarrow> string list \<Rightarrow> string \<Rightarrow> string option \<Rightarrow> rat \<Rightarrow>
     handler \<Rightarrow> handler" where
  "on_llm_start serialized ps rid parent t0 h = start_common ''llm'' serialized ps rid parent t0 h"

text \<open>
  A conversation is the list of the contents of its messages, \<open>None\<close> for a message
  without the attribute \<^verbatim>\<open>content\<close>.
\<close>

definition convo_text :: "string option list \<Rightarrow> string" where
  "convo_text convo = join '' '' (map the (filter (\<lambda>m. m \<noteq> None) convo))"

definition on_chat_model_start ::
    "(string \<times> pyval) list \<Rightarrow> string option list list \<Rightarrow> string \<Rightarrow> string option \<Rightarrow> rat \<Rightarrow>
     handler \<Rightarrow> handler" where
  "on_chat_model_start serialized messages rid parent t0 h =
     start_common ''chat'' serialized
       (filter (\<lambda>txt. txt \<noteq> []) (map convo_text messages)) rid parent t0 h"

definition on_llm_error :: "string \<Rightarrow> string \<Rightarrow> rat \<Rightarrow> handler \<Rightarrow> handler" where
  "on_llm_error err rid now h =
     (case dict_pop (calls h) rid of
        (None, rest) \<Rightarrow> h\<lparr>calls := rest\<rparr>
      | (Some c, rest) \<Rightarrow>
          \<lparr>calls = rest,
           finished = finished h @
             [c\<lparr>c_end_time := Some now,
                c_latency_ms := Some (py_int ((now - c_start_time c) * 1000)),
                c_error := Some err\<rparr>]\<rparr>)"

subsection \<open>The end of an invocation\<close>

text \<open>
  The local variables of the \<^verbatim>\<open>try\<close> block of \<^verbatim>\<open>_end_common\<close>. On responses of the shape
  above no statement of the block raises, so the handler of the exception is never
  entered. The variable \<^verbatim>\<open>usage\<close> may hold \<^verbatim>\<open>None\<close> only between steps 3 and 4.
\<close>

record locals =
  l_model :: "string option"
  l_request_id :: "string option"
  l_prompt_toks :: int
  l_comp_toks :: int
  l_total_toks :: int
  l_output_preview :: "string option"
  l_raw_meta :: raw_meta
  l_usage :: "usage_dict option"

definition first_generation :: "llm_result \<Rightarrow> generation option" where
  "first_generation response =
     (let gens = res_generations response in
      if gens \<noteq> [] \<and> hd gens \<noteq> [] then Some (hd (hd gens)) else None)"

definition first_message :: "llm_result \<Rightarrow> message option" where
  "first_message response =
     (case first_generation response of None \<Rightarrow> None | Some gen0 \<Rightarrow> gen_message gen0)"

definition metadata_of :: "message \<Rightarrow> response_metadata" where
  "metadata_of msg =
     (case msg_response_metadata msg of None \<Rightarrow> empty_response_metadata | Some rm \<Rightarrow> rm)"

text \<open>Steps 1 to 4: where the usage block, the model and the request id are looked for.\<close>

definition find_usage :: "llm_result \<Rightarrow> locals" where
  "find_usage response =
     (let llm_out = (case res_llm_output response of None \<Rightarrow> empty_llm_output | Some lo \<Rightarrow> lo);
          s1 = \<lparr>l_model = None, l_request_id = None, l_prompt_toks = 0, l_comp_toks = 0,
                l_total_toks = 0, l_output_preview = None,
                l_raw_meta = empty_raw\<lparr>raw_llm_output := Some llm_out\<rparr>,
                l_usage = py_or (py_or (lo_token_usage llm_out) (lo_usage llm_out)) (Some [])\<rparr>;
          s2 = (case first_message response of
                  None \<Rightarrow> s1
                | Some msg \<Rightarrow>
                    let rm = metadata_of msg in
                    s1\<lparr>l_output_preview := Some (take 200 (msg_content msg) @ ellipsis),
                       l_raw_meta := (l_raw_meta s1)\<lparr>raw_response_message_metadata := Some rm\<rparr>,
                       l_model := py_or (py_or (py_or (lo_model llm_out) (lo_model_name llm_out))
                                     (rm_model rm)) (rm_model_name rm),
                       l_request_id := py_or (rm_id rm) (rm_request_id rm),
                       l_usage := py_or (py_or (py_or (l_usage s1) (rm_token_usage rm))
                                     (rm_usage rm)) (Some [])\<rparr>);
          s3 = (case first_generation response of
                  None \<Rightarrow> s2
                | Some gen0 \<Rightarrow>
                    let gi = (case gen_generation_info gen0 of
                                None \<Rightarrow> empty_generation_info | Some i \<Rightarrow> i) in
                    s2\<lparr>l_raw_meta := (l_raw_meta s2)\<lparr>raw_generation_info := Some gi\<rparr>,
                       l_usage := py_or (py_or (l_usage s2) (gi_token_usage gi)) (gi_usage gi)\<rparr>)
      in if \<not> truthy (l_usage s3) then
           let openai_raw = (case lo_openai_api_response llm_out of
                               None \<Rightarrow> \<lparr>oa_usage = None\<rparr> | Some r \<Rightarrow> r) in
           s3\<lparr>l_raw_meta := (l_raw_meta s3)\<lparr>raw_openai_api_response := Some openai_raw\<rparr>,
              l_usage := py_or (oa_usage openai_raw) (Some [])\<rparr>
         else s3)"

text \<open>The final parse of the usage block, and step 5, the estimate by the tokenizer.\<close>

definition parse_usage :: "usage_dict \<Rightarrow> locals \<Rightarrow> locals" where
  "parse_usage usage s =
     (let p = get_int_or usage ''prompt_tokens'' 0;
          c = get_int_or usage ''completion_tokens'' 0
      in s\<lparr>l_prompt_toks := p, l_comp_toks := c,
            l_total_toks := get_int_or usage ''total_tokens'' (p + c)\<rparr>)"

definition estimate_tokens ::
    "tiktoken_lib option \<Rightarrow> call \<Rightarrow> llm_result \<Rightarrow> locals \<Rightarrow> locals" where
  "estimate_tokens tiktoken c response s =
     (if l_prompt_toks s + l_comp_toks s = 0 then
        let eff_model = (if truthy (l_model s) then the (l_model s) else ''gpt-4o-mini'');
            input_text = join '' '' (c_prompts c);
            p = count_tokens tiktoken eff_model input_text;
            k = count_tokens tiktoken eff_model
                  (case first_message response of None \<Rightarrow> [] | Some msg \<Rightarrow> msg_content msg)
        in s\<lparr>l_prompt_toks := p, l_comp_toks := k, l_total_toks := p + k\<rparr>
      else s)"

text \<open>The second reading of the first generation, after the model name is reset.\<close>

definition reread_generation :: "llm_result \<Rightarrow> locals \<Rightarrow> locals" where
  "reread_generation response s =
     (let llm_out = (case res_llm_output response of None \<Rightarrow> empty_llm_output | Some lo \<Rightarrow> lo);
          s1 = s\<lparr>l_model := lo_model_name llm_out\<rparr>
      in case first_message response of
           None \<Rightarrow> s1
         | Some msg \<Rightarrow>
             let rm = metadata_of msg;
                 s2 = s1\<lparr>l_output_preview := Some (take 200 (msg_content msg) @ ellipsis),
                         l_raw_meta := (l_raw_meta s1)\<lparr>raw_response_message_metadata := Some rm\<rparr>,
                         l_model := py_or (l_model s1) (rm_model_name rm),
                         l_request_id := py_or (rm_id rm) (rm_request_id rm)\<rparr>
             in if \<not> truthy (l_usage s) \<and> rm_token_usage rm \<noteq> None
                then parse_usage (the (rm_token_usage rm)) s2
                else s2)"

definition extract_metadata :: "tiktoken_lib option \<Rightarrow> call \<Rightarrow> llm_result \<Rightarrow> locals" where
  "extract_metadata tiktoken c response =
     (let s = find_usage response;
          s = parse_usage (case l_usage s of None \<Rightarrow> [] | Some u \<Rightarrow> u) s;
          s = estimate_tokens tiktoken c response s
      in reread_generation response s)"

definition end_common :: "tiktoken_lib option \<Rightarrow> llm_result \<Rightarrow> string \<Rightarrow> rat \<Rightarrow> handler \<Rightarrow> handler" where
  "end_common tiktoken response rid t1 h =
     (case dict_pop (calls h) rid of
        (None, rest) \<Rightarrow> h\<lparr>calls := rest\<rparr>
      | (Some c, rest) \<Rightarrow>
          let s = extract_metadata tiktoken c response;
              model_eff = (if truthy (l_model s) then the (l_model s) else ''unknown'');
              cost = estimate_cost_usd model_eff (l_prompt_toks s) (l_comp_toks s)
          in \<lparr>calls = rest,
              finished = finished h @
                [c\<lparr>c_model := Some model_eff,
                   c_output_preview := l_output_preview s,
                   c_prompt_tokens := l_prompt_toks s,
                   c_completion_tokens := l_comp_toks s,
                   c_total_tokens := l_total_toks s,
                   c_cost_usd := round8 cost,
                   c_request_id := l_request_id s,
                   c_raw := l_raw_meta s,
                   c_end_time := Some t1,
                   c_latency_ms := Some (py_int ((t1 - c_start_time c) * 1000))\<rparr>]\<rparr>)"

definition on_llm_end :: "tiktoken_lib option \<Rightarrow> llm_result \<Rightarrow> string \<Rightarrow> rat \<Rightarrow> handler \<Rightarrow> handler" where
  "on_llm_end tiktoken response rid t1 h = end_common tiktoken response rid t1 h"

text \<open>The events of the framework, each with the reading of the clock at its arrival.\<close>

datatype event =
    LlmStart "(string \<times> pyval) list" "string list" string "string option" rat
  | ChatModelStart "(string \<times> pyval) list" "string option list list" string "string option" rat
  | LlmEnd llm_result string rat
  | LlmError string string rat

fun handle :: "tiktoken_lib option \<Rightarrow> handler \<Rightarrow> event \<Rightarrow> handler" where
  "handle tiktoken h (LlmStart serialized ps rid parent t0) = on_llm_start serialized ps rid parent t0 h"
| "handle tiktoken h (ChatModelStart serialized messages rid parent t0) =
     on_chat_model_start serialized messages rid parent t0 h"
| "handle tiktoken h (LlmEnd response rid t1) = on_llm_end tiktoken response rid t1 h"
| "handle tiktoken h (LlmError err rid now) = on_llm_error err rid now h"

definition run_events :: "tiktoken_lib option \<Rightarrow> event list \<Rightarrow> handler" where
  "run_events tiktoken evs = foldl (handle tiktoken) init_handler evs"

fun event_run_id :: "event \<Rightarrow> string" where
  "event_run_id (LlmStart serialized ps rid parent t0) = rid"
| "event_run_id (ChatModelStart serialized messages rid parent t0) = rid"
| "event_run_id (LlmEnd response rid t1) = rid"
| "event_run_id (LlmError err rid now) = rid"

fun is_start :: "event \<Rightarrow> bool" where
  "is_start (LlmStart serialized ps rid parent t0) = True"
| "is_start (ChatModelStart serialized messages rid parent t0) = True"
| "is_start ev = False"

text \<open>The totals that \<^verbatim>\<open>run\<close> reports over the finished sequence.\<close>

definition total_prompt :: "call list \<Rightarrow> int" where
  "total_prompt cs = sum_list (map c_prompt_tokens cs)"

definition total_completion :: "call list \<Rightarrow> int" where
  "total_completion cs = sum_list (map c_completion_tokens cs)"

definition total_tokens :: "call list \<Rightarrow> int" where
  "total_tokens cs = sum_list (map c_total_tokens cs)"

definition total_cost :: "call list \<Rightarrow> rat" where
  "total_cost cs = round8 (sum_list (map c_cost_usd cs))"

text \<open>The usage fields of a record as \<^verbatim>\<open>_start_common\<close> sets them.\<close>

definition zero_usage :: "call \<Rightarrow> bool" where
  "zero_usage c \<longleftrightarrow>
     c_prompt_tokens c = 0 \<and> c_completion_tokens c = 0 \<and> c_total_tokens c = 0 \<and> c_cost_usd c = 0"



section \<open>Properties of validation and lookup\<close>

lemma construct_isinstance:
  "construct m kw = Inr inst \<Longrightarrow> isinstance inst (model_class m)"
  by (auto simp: construct_def split: prod.splits if_splits)

text \<open>
  C2. An agent that declares no schema (the model is \<^verbatim>\<open>None\<close>) rejects every payload
  other than \<^verbatim>\<open>None\<close>, the empty map and the empty list: validation raises the
  \<^verbatim>\<open>ValueError\<close> that carries exactly one item, lookup returns \<^verbatim>\<open>ok: False\<close> with that
  single item, its code is \<^verbatim>\<open><where>.not_supported\<close> and its pointer \<^verbatim>\<open>/<where>\<close>. With
  one of the three empty payloads validation returns \<^verbatim>\<open>None\<close> and lookup returns
  \<^verbatim>\<open>ok: True\<close> with a null validated object and no errors.
\<close>

theorem no_schema_payload:
  "(payload \<noteq> PNone \<and> payload \<noteq> PDict [] \<and> payload \<noteq> PList [] \<longrightarrow>
      validate_with_model cls None payload where =
        Inl (ValueError (Some \<lparr>d_ok = False, d_errors = [not_supported_item cls where]\<rparr>)) \<and>
      lookup_with_model cls None payload where =
        Inr \<lparr>r_ok = False, r_value = PNone, r_errors = [not_supported_item cls where],
             r_schema = PNone\<rparr>) \<and>
   (payload = PNone \<or> payload = PDict [] \<or> payload = PList [] \<longrightarrow>
      validate_with_model cls None payload where = Inr PNone \<and>
      lookup_with_model cls None payload where =
        Inr \<lparr>r_ok = True, r_value = PNone, r_errors = [], r_schema = PNone\<rparr>) \<and>
   code (not_supported_item cls where) = where @ ''.not_supported'' \<and>
   pointer (not_supported_item cls where) = Some (''/'' @ where)"
  by (auto simp: validate_with_model_def lookup_with_model_def payload_in_empties_def
      not_supported_item_def)

theorem no_schema_payload_witness:
  "validate_with_model ''EchoAgent'' None (PDict [(''temperature'', PInt 1)]) ''config'' =
     Inl (ValueError (Some \<lparr>d_ok = False, d_errors =
       [\<lparr>code = ''config.not_supported'', title = ''config no admitido'',
         detail = Some ''EchoAgent no acepta config.'', pointer = Some ''/config'',
         meta = None\<rparr>]\<rparr>)) \<and>
   lookup_with_model ''EchoAgent'' None (PDict []) ''config'' =
     Inr \<lparr>r_ok = True, r_value = PNone, r_errors = [], r_schema = PNone\<rparr>"
  using no_schema_payload [of "PDict [(''temperature'', PInt 1)]" "''EchoAgent''" "''config''"]
    no_schema_payload [of "PDict []" "''EchoAgent''" "''config''"]
  by (simp add: not_supported_item_def)

text \<open>
  C3. Validation is idempotent: a payload that already is an instance of the schema
  model is returned as it is, and whatever a successful validation returns is returned
  unchanged when it is validated again against the same model.
\<close>

theorem validate_idempotent:
  "(isinstance P (model_class m) \<longrightarrow> validate_with_model cls (Some m) P w = Inr P) \<and>
   (validate_with_model cls model P w = Inr out \<longrightarrow>
      validate_with_model cls model out w = Inr out)"
proof (intro conjI impI)
  assume "isinstance P (model_class m)"
  then show "validate_with_model cls (Some m) P w = Inr P"
    by (simp add: validate_with_model_def)
next
  assume ok: "validate_with_model cls model P w = Inr out"
  show "validate_with_model cls model out w = Inr out"
  proof (cases model)
    case None
    with ok have "out = PNone"
      by (simp add: validate_with_model_def split: if_splits)
    with None show ?thesis
      by (simp add: validate_with_model_def payload_in_empties_def)
  next
    case (Some m')
    with ok have "isinstance out (model_class m')"
      by (auto simp: validate_with_model_def split: if_splits sum.splits pyval.splits
          dest: construct_isinstance)
    with Some show ?thesis
      by (simp add: validate_with_model_def)
  qed
qed

theorem validate_idempotent_witness:
  "validate_with_model ''TooledAgent'' (Some TooledConfig)
     (PObj [PyClass 1 ''TooledConfig'', BaseModel]
       [(''model'', PStr ''gpt-4o-mini''), (''temperature'', PFloat 0),
        (''max_tokens'', PInt 256), (''lang'', PStr ''es''),
        (''system_prompt'', PStr (''Eres un agente '' @ [CHR 0xC3, CHR 0xBA] @
            ''til. Usa herramientas cuando sea necesario.''))]) ''config'' =
   Inr (PObj [PyClass 1 ''TooledConfig'', BaseModel]
       [(''model'', PStr ''gpt-4o-mini''), (''temperature'', PFloat 0),
        (''max_tokens'', PInt 256), (''lang'', PStr ''es''),
        (''system_prompt'', PStr (''Eres un agente '' @ [CHR 0xC3, CHR 0xBA] @
            ''til. Usa herramientas cuando sea necesario.''))])"
proof -
  have "validate_with_model ''TooledAgent'' (Some TooledConfig) (PDict []) ''config'' =
     Inr (PObj [PyClass 1 ''TooledConfig'', BaseModel]
       [(''model'', PStr ''gpt-4o-mini''), (''temperature'', PFloat 0),
        (''max_tokens'', PInt 256), (''lang'', PStr ''es''),
        (''system_prompt'', PStr (''Eres un agente '' @ [CHR 0xC3, CHR 0xBA] @
            ''til. Usa herramientas cuando sea necesario.''))])"
    by (simp add: validate_with_model_def TooledConfig_def construct_def check_field_def
        BaseModel_def)
  with validate_idempotent [where cls = "''TooledAgent''" and model = "Some TooledConfig"
      and P = "PDict []" and w = "''config''"]
  show ?thesis by blast
qed

text \<open>
  C4. With a declared schema model, a payload that is neither an instance of the model,
  nor a map, nor \<^verbatim>\<open>None\<close> makes validation raise \<^verbatim>\<open>TypeError\<close>, which is not the
  \<^verbatim>\<open>ValueError\<close> of a validation failure; lookup, which turns every \<^verbatim>\<open>ValueError\<close>
  into a report, returns no report here and lets the \<^verbatim>\<open>TypeError\<close> reach its caller.
\<close>

theorem type_mismatch_propagates:
  assumes "\<not> isinstance P (model_class m)" and "P \<noteq> PNone" and "\<not> is_dict P"
  shows "validate_with_model cls (Some m) P w =
           Inl (TypeError (w @ '' debe ser '' @ cls_name (model_class m) @ '', dict o None'')) \<and>
         lookup_with_model cls (Some m) P w =
           Inl (TypeError (w @ '' debe ser '' @ cls_name (model_class m) @ '', dict o None'')) \<and>
         (\<forall>d. validate_with_model cls (Some m) P w \<noteq> Inl (ValueError d)) \<and>
         (\<forall>r. lookup_with_model cls (Some m) P w \<noteq> Inr r)"
proof -
  have "validate_with_model cls (Some m) P w =
          Inl (TypeError (w @ '' debe ser '' @ cls_name (model_class m) @ '', dict o None''))"
    using assms by (cases P) (simp_all add: validate_with_model_def)
  then show ?thesis
    by (simp add: lookup_with_model_def)
qed

theorem type_mismatch_propagates_witness:
  "lookup_with_model ''TooledAgent'' (Some TooledConfig) (PStr ''hot'') ''config'' =
     Inl (TypeError ''config debe ser TooledConfig, dict o None'')"
  using type_mismatch_propagates [of "PStr ''hot''" TooledConfig "''TooledAgent''" "''config''"]
  by (simp add: TooledConfig_def)

subsection \<open>Error normalisation and the concrete configuration schema\<close>

lemma lower_type_msg:
  "\<not> startswith (lower ''Input should be a valid value of the declared type'') ''field required''"
  by code_simp

lemma lower_range_msg:
  "\<not> startswith (lower ''Input should be within the declared range'') ''field required''"
  by code_simp

lemma is_missing_missing_error: "is_missing (missing_error n)"
  by (simp add: is_missing_def missing_error_def)

lemma type_kind_cases:
  "type_kind t \<in> {''string_type'', ''int_type'', ''float_type'', ''bool_type'',
     ''is_instance_of'', ''value_error''}"
  by (induction t) simp_all

lemma not_missing_type_error: "\<not> is_missing (type_error n t)"
proof -
  have "\<not> endswith (type_kind t) ''.missing'' \<and> type_kind t \<noteq> ''missing''"
    using type_kind_cases [of t] by (auto simp: endswith_def suffix_to_prefix)
  then show ?thesis
    using lower_type_msg by (simp add: is_missing_def type_error_def)
qed

lemma not_missing_range_error:
  "kind = ''greater_than_equal'' \<or> kind = ''less_than_equal'' \<Longrightarrow>
   \<not> is_missing (range_error n kind key b)"
  using lower_range_msg
  by (auto simp: is_missing_def range_error_def endswith_def suffix_to_prefix)

lemma code_normalize_one:
  "code (normalize_one w e) = (if is_missing e then w @ ''.missing'' else w @ ''.validation'')"
  by (simp add: normalize_one_def Let_def)

lemma check_field_pointer:
  "check_field n f kw = Inl e \<Longrightarrow> pointer (normalize_one w e) = Some (''/'' @ n)"
  by (auto simp: check_field_def normalize_one_def Let_def missing_error_def type_error_def
      range_error_def split: option.splits if_splits)

lemma check_field_present:
  "map_of kw n = Some v \<Longrightarrow> check_field n f kw = Inl e \<Longrightarrow> \<not> is_missing e"
  by (auto simp: check_field_def not_missing_type_error not_missing_range_error
      split: if_splits)

lemma build_fields_errs_in:
  "(n, f) \<in> set fs \<Longrightarrow> check_field n f kw = Inl e \<Longrightarrow> e \<in> set (fst (build_fields fs kw))"
  by (induction fs kw rule: build_fields.induct) (auto split: prod.splits sum.splits)

lemma build_fields_errs_from:
  "e \<in> set (fst (build_fields fs kw)) \<Longrightarrow> \<exists>n f. (n, f) \<in> set fs \<and> check_field n f kw = Inl e"
  by (induction fs kw rule: build_fields.induct) (auto split: prod.splits sum.splits)

lemma validate_dict_fail:
  assumes "fst (build_fields (model_fields m) kw) \<noteq> []"
  shows "validate_with_model cls (Some m) (PDict kw) w =
           Inl (ValueError (Some \<lparr>d_ok = False,
             d_errors = map (normalize_one w) (fst (build_fields (model_fields m) kw))\<rparr>))"
    and "lookup_with_model cls (Some m) (PDict kw) w =
           Inr \<lparr>r_ok = False, r_value = PNone,
             r_errors = map (normalize_one w) (fst (build_fields (model_fields m) kw)),
             r_schema = PNone\<rparr>"
  using assms
  by (auto simp: validate_with_model_def lookup_with_model_def construct_def raise_normalized_def
      normalize_pydantic_errors_def split: prod.splits)

text \<open>
  C1. Every violation reported by the schema library becomes one error item. Its code
  is \<^verbatim>\<open><where>.missing\<close> exactly when the violation kind is \<^verbatim>\<open>missing\<close>, or ends with
  \<^verbatim>\<open>.missing\<close>, or the message (lower-cased by the code before the comparison) starts
  with \<^verbatim>\<open>field required\<close>; for every other violation it is \<^verbatim>\<open><where>.validation\<close>.
  For a schema with a required field \<open>F\<close> without default, a map payload that omits
  \<open>F\<close> yields an item with code \<^verbatim>\<open><where>.missing\<close> and pointer \<^verbatim>\<open>/F\<close>; a payload
  that supplies \<open>F\<close> with a value of the wrong type yields an item with code
  \<^verbatim>\<open><where>.validation\<close> and pointer \<^verbatim>\<open>/F\<close>, and no item at \<^verbatim>\<open>/F\<close> is coded
  \<^verbatim>\<open>.missing\<close>.
\<close>

theorem normalize_missing_vs_validation:
  "(code (normalize_one w e) = w @ ''.missing'' \<longleftrightarrow>
      (case e_type e of None \<Rightarrow> [] | Some t \<Rightarrow> t) = ''missing'' \<or>
      endswith (case e_type e of None \<Rightarrow> [] | Some t \<Rightarrow> t) ''.missing'' \<or>
      startswith (lower (case e_msg e of None \<Rightarrow> [] | Some t \<Rightarrow> t)) ''field required'') \<and>
   (code (normalize_one w e) \<noteq> w @ ''.missing'' \<longrightarrow>
      code (normalize_one w e) = w @ ''.validation'') \<and>
   normalize_pydantic_errors w ve = map (normalize_one w) ve \<and>
   ((F, f) \<in> set (model_fields m) \<and> f_default f = None \<and> map_of kw F = None \<longrightarrow>
      (\<exists>errs.
         validate_with_model cls (Some m) (PDict kw) w =
           Inl (ValueError (Some \<lparr>d_ok = False, d_errors = errs\<rparr>)) \<and>
         lookup_with_model cls (Some m) (PDict kw) w =
           Inr \<lparr>r_ok = False, r_value = PNone, r_errors = errs, r_schema = PNone\<rparr> \<and>
         (\<exists>it \<in> set errs. code it = w @ ''.missing'' \<and> pointer it = Some (''/'' @ F)))) \<and>
   ((F, f) \<in> set (model_fields m) \<and> map_of kw F = Some v \<and> \<not> conforms (annotation f) v \<longrightarrow>
      (\<exists>errs.
         validate_with_model cls (Some m) (PDict kw) w =
           Inl (ValueError (Some \<lparr>d_ok = False, d_errors = errs\<rparr>)) \<and>
         lookup_with_model cls (Some m) (PDict kw) w =
           Inr \<lparr>r_ok = False, r_value = PNone, r_errors = errs, r_schema = PNone\<rparr> \<and>
         (\<exists>it \<in> set errs. code it = w @ ''.validation'' \<and> pointer it = Some (''/'' @ F)) \<and>
         (\<forall>it \<in> set errs. pointer it = Some (''/'' @ F) \<longrightarrow> code it \<noteq> w @ ''.missing'')))"
proof (intro conjI impI)
  show "code (normalize_one w e) = w @ ''.missing'' \<longleftrightarrow>
      (case e_type e of None \<Rightarrow> [] | Some t \<Rightarrow> t) = ''missing'' \<or>
      endswith (case e_type e of None \<Rightarrow> [] | Some t \<Rightarrow> t) ''.missing'' \<or>
      startswith (lower (case e_msg e of None \<Rightarrow> [] | Some t \<Rightarrow> t)) ''field required''"
    by (auto simp: code_normalize_one is_missing_def Let_def)
  show "code (normalize_one w e) = w @ ''.validation''"
    if "code (normalize_one w e) \<noteq> w @ ''.missing''"
    using that by (simp add: code_normalize_one split: if_splits)
  show "normalize_pydantic_errors w ve = map (normalize_one w) ve"
    by (simp add: normalize_pydantic_errors_def)
next
  let ?es = "fst (build_fields (model_fields m) kw)"
  assume a: "(F, f) \<in> set (model_fields m) \<and> f_default f = None \<and> map_of kw F = None"
  then have c: "check_field F f kw = Inl (missing_error F)"
    by (simp add: check_field_def)
  with a have mem: "missing_error F \<in> set ?es"
    by (blast intro: build_fields_errs_in)
  then have ne: "?es \<noteq> []" by auto
  have "normalize_one w (missing_error F) \<in> set (map (normalize_one w) ?es)"
    using mem by simp
  moreover have "code (normalize_one w (missing_error F)) = w @ ''.missing''"
    by (simp add: code_normalize_one is_missing_missing_error)
  moreover have "pointer (normalize_one w (missing_error F)) = Some (''/'' @ F)"
    using c by (rule check_field_pointer)
  ultimately show "\<exists>errs.
         validate_with_model cls (Some m) (PDict kw) w =
           Inl (ValueError (Some \<lparr>d_ok = False, d_errors = errs\<rparr>)) \<and>
         lookup_with_model cls (Some m) (PDict kw) w =
           Inr \<lparr>r_ok = False, r_value = PNone, r_errors = errs, r_schema = PNone\<rparr> \<and>
         (\<exists>it \<in> set errs. code it = w @ ''.missing'' \<and> pointer it = Some (''/'' @ F))"
    using validate_dict_fail [OF ne] by blast
next
  let ?es = "fst (build_fields (model_fields m) kw)"
  assume a: "(F, f) \<in> set (model_fields m) \<and> map_of kw F = Some v \<and> \<not> conforms (annotation f) v"
  then have c: "check_field F f kw = Inl (type_error F (annotation f))"
    by (simp add: check_field_def)
  with a have mem: "type_error F (annotation f) \<in> set ?es"
    by (blast intro: build_fields_errs_in)
  then have ne: "?es \<noteq> []" by auto
  have 1: "normalize_one w (type_error F (annotation f)) \<in> set (map (normalize_one w) ?es)"
    using mem by simp
  have 2: "code (normalize_one w (type_error F (annotation f))) = w @ ''.validation''"
    by (simp add: code_normalize_one not_missing_type_error)
  have 3: "pointer (normalize_one w (type_error F (annotation f))) = Some (''/'' @ F)"
    using c by (rule check_field_pointer)
  have 4: "code it \<noteq> w @ ''.missing''"
    if "it \<in> set (map (normalize_one w) ?es)" and p: "pointer it = Some (''/'' @ F)" for it
  proof -
    from that obtain e' where e': "e' \<in> set ?es" and it: "it = normalize_one w e'" by auto
    from e' obtain n f' where nf: "(n, f') \<in> set (model_fields m)" "check_field n f' kw = Inl e'"
      by (blast dest: build_fields_errs_from)
    from nf(2) have "pointer it = Some (''/'' @ n)"
      unfolding it by (rule check_field_pointer)
    with p have "n = F" by simp
    with nf(2) a have "\<not> is_missing e'"
      by (auto dest: check_field_present)
    then show ?thesis by (simp add: it code_normalize_one)
  qed
  show "\<exists>errs.
         validate_with_model cls (Some m) (PDict kw) w =
           Inl (ValueError (Some \<lparr>d_ok = False, d_errors = errs\<rparr>)) \<and>
         lookup_with_model cls (Some m) (PDict kw) w =
           Inr \<lparr>r_ok = False, r_value = PNone, r_errors = errs, r_schema = PNone\<rparr> \<and>
         (\<exists>it \<in> set errs. code it = w @ ''.validation'' \<and> pointer it = Some (''/'' @ F)) \<and>
         (\<forall>it \<in> set errs. pointer it = Some (''/'' @ F) \<longrightarrow> code it \<noteq> w @ ''.missing'')"
    using validate_dict_fail [OF ne] 1 2 3 4 by blast
qed

theorem normalize_missing_vs_validation_witness:
  "(\<exists>errs.
      lookup_with_model ''Agent''
        (Some \<lparr>model_class = PyClass 7 ''Cfg'', model_bases = [BaseModel],
           model_fields = [(''temperature'',
             \<lparr>annotation = TyFloat, f_default = None, f_ge = None, f_le = None\<rparr>)]\<rparr>)
        (PDict []) ''config'' =
        Inr \<lparr>r_ok = False, r_value = PNone, r_errors = errs, r_schema = PNone\<rparr> \<and>
      (\<exists>it \<in> set errs. code it = ''config.missing'' \<and> pointer it = Some ''/temperature'')) \<and>
   (\<exists>errs.
      lookup_with_model ''Agent''
        (Some \<lparr>model_class = PyClass 7 ''Cfg'', model_bases = [BaseModel],
           model_fields = [(''temperature'',
             \<lparr>annotation = TyFloat, f_default = None, f_ge = None, f_le = None\<rparr>)]\<rparr>)
        (PDict [(''temperature'', PStr ''hot'')]) ''config'' =
        Inr \<lparr>r_ok = False, r_value = PNone, r_errors = errs, r_schema = PNone\<rparr> \<and>
      (\<exists>it \<in> set errs. code it = ''config.validation'' \<and> pointer it = Some ''/temperature''))"
proof -
  let ?f = "\<lparr>annotation = TyFloat, f_default = None, f_ge = None, f_le = None\<rparr>"
  let ?m = "\<lparr>model_class = PyClass 7 ''Cfg'', model_bases = [BaseModel],
           model_fields = [(''temperature'', ?f)]\<rparr>"
  have h1: "(''temperature'', ?f) \<in> set (model_fields ?m) \<and> f_default ?f = None \<and>
      map_of ([] :: (string \<times> pyval) list) ''temperature'' = None"
    by simp
  have h2: "(''temperature'', ?f) \<in> set (model_fields ?m) \<and>
      map_of [(''temperature'', PStr ''hot'')] ''temperature'' = Some (PStr ''hot'') \<and>
      \<not> conforms (annotation ?f) (PStr ''hot'')"
    by simp
  from normalize_missing_vs_validation
    [of "''config''" _ _ "''temperature''" ?f ?m "[]" "''Agent''"] h1
  have a: "\<exists>errs.
      lookup_with_model ''Agent'' (Some ?m) (PDict []) ''config'' =
        Inr \<lparr>r_ok = False, r_value = PNone, r_errors = errs, r_schema = PNone\<rparr> \<and>
      (\<exists>it \<in> set errs. code it = ''config.missing'' \<and> pointer it = Some ''/temperature'')"
    by simp blast
  from normalize_missing_vs_validation
    [of "''config''" _ _ "''temperature''" ?f ?m "[(''temperature'', PStr ''hot'')]" "''Agent''"
      "PStr ''hot''"] h2
  have b: "\<exists>errs.
      lookup_with_model ''Agent'' (Some ?m) (PDict [(''temperature'', PStr ''hot'')]) ''config'' =
        Inr \<lparr>r_ok = False, r_value = PNone, r_errors = errs, r_schema = PNone\<rparr> \<and>
      (\<exists>it \<in> set errs. code it = ''config.validation'' \<and> pointer it = Some ''/temperature'')"
    by simp blast
  from a b show ?thesis by blast
qed

lemma range_above_fields:
  "\<not> is_missing (range_error n ''less_than_equal'' key b)"
  by (simp add: not_missing_range_error)

text \<open>
  C5. For the configuration schema \<^verbatim>\<open>TooledConfig\<close> (temperature between 0.0 and 2.0
  with default 0.0, model with default \<^verbatim>\<open>gpt-4o-mini\<close>): the empty map validates, lookup
  answers \<^verbatim>\<open>ok: True\<close> and the configuration carries every default, with temperature 0.0
  and model \<^verbatim>\<open>gpt-4o-mini\<close>; the payload \<^verbatim>\<open>{"temperature": 5.0}\<close> makes lookup answer
  \<^verbatim>\<open>ok: False\<close> with exactly one error, whose code is \<^verbatim>\<open>config.validation\<close> and whose
  pointer is \<^verbatim>\<open>/temperature\<close>.
\<close>

theorem tooled_config_scenario:
  "validate_with_model cls (Some TooledConfig) (PDict []) ''config'' =
     Inr (PObj [PyClass 1 ''TooledConfig'', BaseModel]
       [(''model'', PStr ''gpt-4o-mini''), (''temperature'', PFloat 0),
        (''max_tokens'', PInt 256), (''lang'', PStr ''es''),
        (''system_prompt'', PStr (''Eres un agente '' @ [CHR 0xC3, CHR 0xBA] @
            ''til. Usa herramientas cuando sea necesario.''))]) \<and>
   lookup_with_model cls (Some TooledConfig) (PDict []) ''config'' =
     Inr \<lparr>r_ok = True,
          r_value = PDict
            [(''model'', PStr ''gpt-4o-mini''), (''temperature'', PFloat 0),
             (''max_tokens'', PInt 256), (''lang'', PStr ''es''),
             (''system_prompt'', PStr (''Eres un agente '' @ [CHR 0xC3, CHR 0xBA] @
                 ''til. Usa herramientas cuando sea necesario.''))],
          r_errors = [], r_schema = PNone\<rparr> \<and>
   (\<exists>it.
      lookup_with_model cls (Some TooledConfig) (PDict [(''temperature'', PFloat 5)]) ''config'' =
        Inr \<lparr>r_ok = False, r_value = PNone, r_errors = [it], r_schema = PNone\<rparr> \<and>
      code it = ''config.validation'' \<and> endswith (code it) ''.validation'' \<and>
      pointer it = Some ''/temperature'')"
proof (intro conjI)
  show v: "validate_with_model cls (Some TooledConfig) (PDict []) ''config'' =
     Inr (PObj [PyClass 1 ''TooledConfig'', BaseModel]
       [(''model'', PStr ''gpt-4o-mini''), (''temperature'', PFloat 0),
        (''max_tokens'', PInt 256), (''lang'', PStr ''es''),
        (''system_prompt'', PStr (''Eres un agente '' @ [CHR 0xC3, CHR 0xBA] @
            ''til. Usa herramientas cuando sea necesario.''))])"
    by (simp add: validate_with_model_def TooledConfig_def construct_def check_field_def
        BaseModel_def)
  then show "lookup_with_model cls (Some TooledConfig) (PDict []) ''config'' =
     Inr \<lparr>r_ok = True,
          r_value = PDict
            [(''model'', PStr ''gpt-4o-mini''), (''temperature'', PFloat 0),
             (''max_tokens'', PInt 256), (''lang'', PStr ''es''),
             (''system_prompt'', PStr (''Eres un agente '' @ [CHR 0xC3, CHR 0xBA] @
                 ''til. Usa herramientas cuando sea necesario.''))],
          r_errors = [], r_schema = PNone\<rparr>"
    by (simp add: lookup_with_model_def)
  have "validate_with_model cls (Some TooledConfig) (PDict [(''temperature'', PFloat 5)]) ''config'' =
      Inl (ValueError (Some \<lparr>d_ok = False, d_errors =
        [normalize_one ''config'' (range_error ''temperature'' ''less_than_equal'' ''le'' 2)]\<rparr>))"
    by (simp add: validate_with_model_def TooledConfig_def construct_def check_field_def
        BaseModel_def below_def above_def raise_normalized_def normalize_pydantic_errors_def)
  moreover have "code (normalize_one ''config'' (range_error ''temperature'' ''less_than_equal'' ''le'' 2))
       = ''config.validation''"
    by (simp add: code_normalize_one range_above_fields)
  moreover have "pointer (normalize_one ''config'' (range_error ''temperature'' ''less_than_equal'' ''le'' 2))
       = Some ''/temperature''"
    by (simp add: normalize_one_def Let_def range_error_def)
  ultimately show "\<exists>it.
      lookup_with_model cls (Some TooledConfig) (PDict [(''temperature'', PFloat 5)]) ''config'' =
        Inr \<lparr>r_ok = False, r_value = PNone, r_errors = [it], r_schema = PNone\<rparr> \<and>
      code it = ''config.validation'' \<and> endswith (code it) ''.validation'' \<and>
      pointer it = Some ''/temperature''"
    by (simp add: lookup_with_model_def endswith_def suffix_to_prefix)
qed

theorem tooled_config_scenario_witness:
  "r_ok (projr (lookup_with_model ''TooledAgent'' (Some TooledConfig) (PDict []) ''config'')) \<and>
   \<not> r_ok (projr (lookup_with_model ''TooledAgent'' (Some TooledConfig)
      (PDict [(''temperature'', PFloat 5)]) ''config''))"
  using tooled_config_scenario [of "''TooledAgent''"] by auto

section \<open>Properties of dependency injection and tool merging\<close>

lemma map_of_dict_set: "map_of (dict_set d k v) = (map_of d)(k \<mapsto> v)"
  by (induction d k v rule: dict_set.induct) (auto simp: fun_eq_iff)








lemma dict_set_keys:
  "map fst (dict_set d k v) = (if k \<in> set (map fst d) then map fst d else map fst d @ [k])"
  by (induction d k v rule: dict_set.induct) auto

lemma dict_set_new: "k \<notin> fst ` set d \<Longrightarrow> dict_set d k v = d @ [(k, v)]"
  by (induction d k v rule: dict_set.induct) auto

lemma dict_set_entries: "set (dict_set d k v) \<subseteq> insert (k, v) (set d)"
  by (induction d k v rule: dict_set.induct) auto

lemma keyed_dict_set: "keyed d \<Longrightarrow> keyed (dict_set d (tool_name t) t)"
  unfolding keyed_def using dict_set_entries [of d "tool_name t" t]
  by (auto simp: dict_set_keys)

lemma keyed_dict_of_tools: "keyed d \<Longrightarrow> keyed (dict_of_tools ts d)"
  by (induction ts arbitrary: d) (auto simp: keyed_dict_set)

lemma keyed_fill_right: "keyed d \<Longrightarrow> keyed (fill_right ts d)"
  by (induction ts arbitrary: d) (auto simp: keyed_dict_set)

lemma keyed_names: "keyed d \<Longrightarrow> map tool_name (map snd d) = map fst d"
  by (induction d) (auto simp: keyed_def)

lemma dict_set_key_set: "fst ` set (dict_set d k v) = insert k (fst ` set d)"
  by (induction d k v rule: dict_set.induct) auto

lemma keys_dict_of_tools:
  "fst ` set (dict_of_tools ts d) = fst ` set d \<union> tool_name ` set ts"
  by (induction ts arbitrary: d) (simp_all add: dict_set_key_set)

lemma keys_fill_right:
  "fst ` set (fill_right ts d) = fst ` set d \<union> tool_name ` set ts"
  by (induction ts arbitrary: d) (auto simp: dict_set_key_set)

lemma map_of_dict_of_tools:
  "map_of (dict_of_tools ts d) k =
     (if k \<in> tool_name ` set ts
      then Some (last (filter (\<lambda>x. tool_name x = k) ts)) else map_of d k)"
proof (induction ts arbitrary: d)
  case Nil
  then show ?case by simp
next
  case (Cons t ts)
  show ?case
  proof (cases "k \<in> tool_name ` set ts")
    case True
    then have "filter (\<lambda>x. tool_name x = k) ts \<noteq> []"
      by (auto simp: filter_empty_conv)
    with True show ?thesis by (simp add: Cons.IH)
  next
    case False
    then have "filter (\<lambda>x. tool_name x = k) ts = []"
      by (auto simp: filter_empty_conv)
    with False show ?thesis
      using Cons.IH [of "dict_set d (tool_name t) t"] by (auto simp: map_of_dict_set)
  qed
qed

lemma map_of_fill_right:
  "map_of (fill_right ts d) k =
     (if k \<in> fst ` set d then map_of d k
      else if k \<in> tool_name ` set ts
      then Some (hd (filter (\<lambda>x. tool_name x = k) ts)) else None)"
proof (induction ts arbitrary: d)
  case Nil
  then show ?case by (auto simp: map_of_eq_None_iff)
next
  case (Cons t ts)
  show ?case
  proof (cases "tool_name t \<in> fst ` set d")
    case True
    then show ?thesis by (auto simp: Cons.IH)
  next
    case False
    then have n: "map_of d (tool_name t) = None" by (simp add: map_of_eq_None_iff)
    show ?thesis
    proof (cases "k = tool_name t")
      case True
      with False show ?thesis
        using Cons.IH [of "dict_set d (tool_name t) t"]
        by (simp add: dict_set_key_set map_of_dict_set)
    next
      case neq: False
      with False show ?thesis
        using Cons.IH [of "dict_set d (tool_name t) t"]
        by (simp add: dict_set_key_set map_of_dict_set)
    qed
  qed
qed

lemma first_seen_wins_cong:
  "set seen = set seen' \<Longrightarrow> first_seen_wins seen ts = first_seen_wins seen' ts"
proof (induction ts arbitrary: seen seen')
  case Nil
  then show ?case by simp
next
  case (Cons t ts)
  have "first_seen_wins (tool_name t # seen) ts = first_seen_wins (tool_name t # seen') ts"
    by (rule Cons.IH) (simp add: Cons.prems)
  moreover have "first_seen_wins seen ts = first_seen_wins seen' ts"
    by (rule Cons.IH) (rule Cons.prems)
  ultimately show ?case using Cons.prems by simp
qed

lemma fill_right_first_seen:
  "keyed d \<Longrightarrow> map snd (fill_right ts d) = map snd d @ first_seen_wins (map fst d) ts"
proof (induction ts arbitrary: d)
  case Nil
  then show ?case by simp
next
  case (Cons t ts)
  show ?case
  proof (cases "tool_name t \<in> fst ` set d")
    case True
    with Cons show ?thesis by simp
  next
    case False
    then have eq: "dict_set d (tool_name t) t = d @ [(tool_name t, t)]"
      by (rule dict_set_new)
    have k: "keyed (d @ [(tool_name t, t)])"
      using keyed_dict_set [OF Cons.prems, of t] eq by simp
    have "first_seen_wins (map fst d @ [tool_name t]) ts =
          first_seen_wins (tool_name t # map fst d) ts"
      by (rule first_seen_wins_cong) auto
    with False show ?thesis
      using Cons.IH [OF k] by (simp add: eq)
  qed
qed

lemma dict_of_tools_distinct:
  "distinct (map tool_name ts) \<Longrightarrow> tool_name ` set ts \<inter> fst ` set d = {} \<Longrightarrow>
   dict_of_tools ts d = d @ map (\<lambda>t. (tool_name t, t)) ts"
proof (induction ts arbitrary: d)
  case Nil
  then show ?case by simp
next
  case (Cons t ts)
  then have "tool_name t \<notin> fst ` set d" by auto
  then have eq: "dict_set d (tool_name t) t = d @ [(tool_name t, t)]"
    by (rule dict_set_new)
  from Cons.prems have "dict_of_tools ts (d @ [(tool_name t, t)]) =
      (d @ [(tool_name t, t)]) @ map (\<lambda>t. (tool_name t, t)) ts"
    by (intro Cons.IH) auto
  then show ?case by (simp add: eq)
qed

lemma first_seen_wins_distinct:
  "distinct (map tool_name L) \<Longrightarrow> tool_name ` set L \<inter> set seen = {} \<Longrightarrow>
   first_seen_wins seen (L @ R) = L @ first_seen_wins (seen @ map tool_name L) R"
proof (induction L arbitrary: seen)
  case Nil
  then show ?case by simp
next
  case (Cons t L)
  from Cons.prems have "first_seen_wins (tool_name t # seen) (L @ R) =
      L @ first_seen_wins ((tool_name t # seen) @ map tool_name L) R"
    by (intro Cons.IH) auto
  moreover have "first_seen_wins ((tool_name t # seen) @ map tool_name L) R =
      first_seen_wins (seen @ map tool_name (t # L)) R"
    by (rule first_seen_wins_cong) auto
  ultimately show ?case using Cons.prems by simp
qed

lemma keyed_empty: "keyed []"
  by (simp add: keyed_def)

lemma keyed_map_of: "keyed d \<Longrightarrow> t \<in> set (map snd d) \<Longrightarrow> map_of d (tool_name t) = Some t"
  by (auto simp: keyed_def)

text \<open>
  C7 (as amended). The merged collection holds exactly one tool for each name that occurs
  among the dependency-supplied and the explicit tools. A name that occurs among the
  dependency tools keeps a dependency-supplied instance, the last one of that name;
  explicit tools only fill the names that no dependency tool has, the first explicit
  tool of a name winning. When the dependency tools have distinct names this is first
  seen wins over the dependency tools followed by the explicit ones. A dependency tool
  and an explicit tool of the same name, such as \<^verbatim>\<open>wikipedia\<close>, merge into the
  dependency-supplied instance alone.
\<close>

theorem merge_tools_precedence:
  "distinct (map tool_name (merge_tools L R)) \<and>
   set (map tool_name (merge_tools L R)) = set (map tool_name (L @ R)) \<and>
   (\<forall>t \<in> set (merge_tools L R).
      (tool_name t \<in> set (map tool_name L) \<longrightarrow>
         t = last (filter (\<lambda>x. tool_name x = tool_name t) L)) \<and>
      (tool_name t \<notin> set (map tool_name L) \<longrightarrow>
         t = hd (filter (\<lambda>x. tool_name x = tool_name t) R))) \<and>
   (distinct (map tool_name L) \<longrightarrow> merge_tools L R = first_seen_wins [] (L @ R)) \<and>
   (tool_name dep = tool_name ext \<longrightarrow> merge_tools [dep] [ext] = [dep])"
proof (intro conjI ballI impI)
  let ?D = "dict_of_tools L []"
  let ?F = "fill_right R ?D"
  have kD: "keyed ?D" by (simp add: keyed_dict_of_tools keyed_empty)
  then have kF: "keyed ?F" by (rule keyed_fill_right)
  have names: "map tool_name (merge_tools L R) = map fst ?F"
    unfolding merge_tools_def by (rule keyed_names [OF kF])
  show "distinct (map tool_name (merge_tools L R))"
    using kF by (simp add: names keyed_def)
  show "set (map tool_name (merge_tools L R)) = set (map tool_name (L @ R))"
    by (simp add: names keys_fill_right keys_dict_of_tools)
  show "merge_tools L R = first_seen_wins [] (L @ R)" if "distinct (map tool_name L)"
  proof -
    from that have D: "?D = map (\<lambda>t. (tool_name t, t)) L"
      using dict_of_tools_distinct [of L "[]"] by simp
    have "merge_tools L R = map snd ?D @ first_seen_wins (map fst ?D) R"
      unfolding merge_tools_def by (rule fill_right_first_seen [OF kD])
    also have "\<dots> = L @ first_seen_wins (map tool_name L) R"
      by (simp add: D comp_def)
    also have "\<dots> = first_seen_wins [] (L @ R)"
      using first_seen_wins_distinct [OF that, of "[]" R] by simp
    finally show ?thesis .
  qed
  show "merge_tools [dep] [ext] = [dep]" if "tool_name dep = tool_name ext"
    using that by (simp add: merge_tools_def)
next
  fix t
  let ?D = "dict_of_tools L []"
  let ?F = "fill_right R ?D"
  assume t: "t \<in> set (merge_tools L R)"
  have kD: "keyed ?D" by (simp add: keyed_dict_of_tools keyed_empty)
  then have kF: "keyed ?F" by (rule keyed_fill_right)
  from t have m: "map_of ?F (tool_name t) = Some t"
    unfolding merge_tools_def by (rule keyed_map_of [OF kF])
  have inF: "tool_name t \<in> fst ` set ?F"
    using m by (metis map_of_eq_None_iff option.distinct(1))
  {
    assume "tool_name t \<in> set (map tool_name L)"
    with m show "t = last (filter (\<lambda>x. tool_name x = tool_name t) L)"
      by (simp add: map_of_fill_right keys_dict_of_tools map_of_dict_of_tools)
  next
    assume "tool_name t \<notin> set (map tool_name L)"
    with m inF show "t = hd (filter (\<lambda>x. tool_name x = tool_name t) R)"
      by (simp add: map_of_fill_right keys_dict_of_tools keys_fill_right split: if_splits)
  }
qed

theorem merge_tools_precedence_witness:
  "merge_tools
     (extract_tools_from_deps
        (PObj [PyClass 4 ''Deps'', BaseModel]
          [(''rag'', PNone),
           (''wiki'', PObj [PyClass 6 ''Tool'', BaseTool]
              [(''name'', PStr ''wikipedia''), (''func'', PCallable 1)])]))
     [PObj [PyClass 6 ''Tool'', BaseTool]
        [(''name'', PStr ''wikipedia''), (''func'', PCallable 2)]] =
   [PObj [PyClass 6 ''Tool'', BaseTool]
      [(''name'', PStr ''wikipedia''), (''func'', PCallable 1)]]"
  using merge_tools_precedence
    [where dep = "PObj [PyClass 6 ''Tool'', BaseTool]
        [(''name'', PStr ''wikipedia''), (''func'', PCallable 1)]"
      and ext = "PObj [PyClass 6 ''Tool'', BaseTool]
        [(''name'', PStr ''wikipedia''), (''func'', PCallable 2)]"]
  by (simp add: extract_tools_from_deps_def tool_name_def)

text \<open>
  Two dependency tools of one name: the dictionary comprehension keeps the second, where
  first seen wins would keep the first.
\<close>

theorem merge_tools_first_seen_counterexample:
  "merge_tools
     [PObj [PyClass 6 ''Tool'', BaseTool] [(''name'', PStr ''wikipedia''), (''func'', PCallable 1)],
      PObj [PyClass 6 ''Tool'', BaseTool] [(''name'', PStr ''wikipedia''), (''func'', PCallable 2)]]
     [] =
   [PObj [PyClass 6 ''Tool'', BaseTool] [(''name'', PStr ''wikipedia''), (''func'', PCallable 2)]] \<and>
   first_seen_wins []
     ([PObj [PyClass 6 ''Tool'', BaseTool] [(''name'', PStr ''wikipedia''), (''func'', PCallable 1)],
       PObj [PyClass 6 ''Tool'', BaseTool] [(''name'', PStr ''wikipedia''), (''func'', PCallable 2)]]
      @ []) =
   [PObj [PyClass 6 ''Tool'', BaseTool] [(''name'', PStr ''wikipedia''), (''func'', PCallable 1)]] \<and>
   merge_tools
     [PObj [PyClass 6 ''Tool'', BaseTool] [(''name'', PStr ''wikipedia''), (''func'', PCallable 1)],
      PObj [PyClass 6 ''Tool'', BaseTool] [(''name'', PStr ''wikipedia''), (''func'', PCallable 2)]]
     [] \<noteq>
   first_seen_wins []
     ([PObj [PyClass 6 ''Tool'', BaseTool] [(''name'', PStr ''wikipedia''), (''func'', PCallable 1)],
       PObj [PyClass 6 ''Tool'', BaseTool] [(''name'', PStr ''wikipedia''), (''func'', PCallable 2)]]
      @ [])"
  by (simp add: merge_tools_def tool_name_def)

section \<open>Properties of the cost tracer\<close>

lemma start_common_effect:
  "\<exists>c. start_common kind serialized ps rid parent t0 h = h\<lparr>calls := (calls h)(rid \<mapsto> c)\<rparr> \<and>
       c_run_id c = rid \<and> zero_usage c"
  unfolding start_common_def zero_usage_def
  by (intro exI conjI) (rule refl, simp_all)

lemma handle_start:
  "is_start ev \<Longrightarrow>
   \<exists>c. handle tk h ev = h\<lparr>calls := (calls h)(event_run_id ev \<mapsto> c)\<rparr> \<and>
       c_run_id c = event_run_id ev \<and> zero_usage c"
  by (cases ev) (simp_all add: on_llm_start_def on_chat_model_start_def start_common_effect)

lemma end_common_absent: "calls h rid = None \<Longrightarrow> end_common tk response rid t1 h = h"
  by (simp add: end_common_def dict_pop_def fun_upd_idem)

lemma on_llm_error_absent: "calls h rid = None \<Longrightarrow> on_llm_error err rid now h = h"
  by (simp add: on_llm_error_def dict_pop_def fun_upd_idem)

lemma end_common_present:
  "calls h rid = Some c0 \<Longrightarrow>
   \<exists>c. end_common tk response rid t1 h =
         \<lparr>calls = (calls h)(rid := None), finished = finished h @ [c]\<rparr> \<and>
       c_run_id c = c_run_id c0"
  by (simp add: end_common_def dict_pop_def Let_def)

lemma on_llm_error_present:
  "calls h rid = Some c0 \<Longrightarrow>
   on_llm_error err rid now h =
     \<lparr>calls = (calls h)(rid := None),
      finished = finished h @
        [c0\<lparr>c_end_time := Some now,
            c_latency_ms := Some (py_int ((now - c_start_time c0) * 1000)),
            c_error := Some err\<rparr>]\<rparr>"
  by (simp add: on_llm_error_def dict_pop_def)

lemma handle_end_absent:
  "\<not> is_start ev \<Longrightarrow> calls h (event_run_id ev) = None \<Longrightarrow> handle tk h ev = h"
  by (cases ev) (simp_all add: on_llm_end_def end_common_absent on_llm_error_absent)

lemma handle_end_present:
  "\<not> is_start ev \<Longrightarrow> calls h (event_run_id ev) = Some c0 \<Longrightarrow>
   \<exists>c. handle tk h ev =
         \<lparr>calls = (calls h)(event_run_id ev := None), finished = finished h @ [c]\<rparr> \<and>
       c_run_id c = c_run_id c0"
proof (cases ev)
  case (LlmEnd response rid t1)
  assume "calls h (event_run_id ev) = Some c0"
  with LlmEnd show ?thesis
    using end_common_present [of h rid c0 tk response t1] by (simp add: on_llm_end_def)
next
  case (LlmError err rid now)
  assume "calls h (event_run_id ev) = Some c0"
  with LlmError show ?thesis
    by (simp add: on_llm_error_present)
qed simp_all

lemma run_events_snoc:
  "run_events tk (evs @ [ev]) = handle tk (run_events tk evs) ev"
  by (simp add: run_events_def)

lemma run_events_nil: "run_events tk [] = init_handler"
  by (simp add: run_events_def)

lemma inflight_inv:
  "calls (run_events tk evs) r = Some c \<Longrightarrow> c_run_id c = r \<and> zero_usage c"
proof (induction evs arbitrary: r c rule: rev_induct)
  case Nil
  then show ?case by (simp add: run_events_nil init_handler_def)
next
  case (snoc ev evs)
  let ?h = "run_events tk evs"
  show ?case
  proof (cases "is_start ev")
    case True
    then obtain c' where c': "handle tk ?h ev = ?h\<lparr>calls := (calls ?h)(event_run_id ev \<mapsto> c')\<rparr>"
        "c_run_id c' = event_run_id ev" "zero_usage c'"
      using handle_start [of ev tk ?h] by blast
    with snoc show ?thesis
      by (auto simp: run_events_snoc split: if_splits)
  next
    case False
    show ?thesis
    proof (cases "calls ?h (event_run_id ev)")
      case None
      with False snoc show ?thesis
        by (simp add: run_events_snoc handle_end_absent)
    next
      case (Some c0)
      then obtain c' where "handle tk ?h ev =
          \<lparr>calls = (calls ?h)(event_run_id ev := None), finished = finished ?h @ [c']\<rparr>"
        using handle_end_present [OF False, of ?h c0 tk] by blast
      with snoc show ?thesis
        by (auto simp: run_events_snoc split: if_splits)
    qed
  qed
qed

lemma finished_has_end:
  "c \<in> set (finished (run_events tk evs)) \<Longrightarrow>
   \<exists>ev \<in> set evs. \<not> is_start ev \<and> event_run_id ev = c_run_id c"
proof (induction evs arbitrary: c rule: rev_induct)
  case Nil
  then show ?case by (simp add: run_events_nil init_handler_def)
next
  case (snoc ev evs)
  let ?h = "run_events tk evs"
  show ?case
  proof (cases "is_start ev")
    case True
    then obtain c' where "handle tk ?h ev = ?h\<lparr>calls := (calls ?h)(event_run_id ev \<mapsto> c')\<rparr>"
      using handle_start [of ev tk ?h] by blast
    with snoc show ?thesis
      by (auto simp: run_events_snoc)
  next
    case False
    show ?thesis
    proof (cases "calls ?h (event_run_id ev)")
      case None
      with False snoc show ?thesis
        by (auto simp: run_events_snoc handle_end_absent)
    next
      case (Some c0)
      then obtain c' where c': "handle tk ?h ev =
          \<lparr>calls = (calls ?h)(event_run_id ev := None), finished = finished ?h @ [c']\<rparr>"
          "c_run_id c' = c_run_id c0"
        using handle_end_present [OF False, of ?h c0 tk] by blast
      from Some have "c_run_id c0 = event_run_id ev"
        using inflight_inv by blast
      with c' snoc False show ?thesis
        by (auto simp: run_events_snoc)
    qed
  qed
qed

lemma completion_counts:
  "length (filter (\<lambda>c. c_run_id c = r) (finished (run_events tk evs))) +
     (if calls (run_events tk evs) r = None then 0 else 1)
     \<le> length (filter (\<lambda>ev. is_start ev \<and> event_run_id ev = r) evs)"
proof (induction evs rule: rev_induct)
  case Nil
  then show ?case by (simp add: run_events_nil init_handler_def)
next
  case (snoc ev evs)
  let ?h = "run_events tk evs"
  show ?case
  proof (cases "is_start ev")
    case True
    then obtain c' where "handle tk ?h ev = ?h\<lparr>calls := (calls ?h)(event_run_id ev \<mapsto> c')\<rparr>"
      using handle_start [of ev tk ?h] by blast
    with snoc True show ?thesis
      by (auto simp: run_events_snoc split: if_splits)
  next
    case False
    show ?thesis
    proof (cases "calls ?h (event_run_id ev)")
      case None
      with False snoc show ?thesis
        by (simp add: run_events_snoc handle_end_absent)
    next
      case (Some c0)
      then obtain c' where c': "handle tk ?h ev =
          \<lparr>calls = (calls ?h)(event_run_id ev := None), finished = finished ?h @ [c']\<rparr>"
          "c_run_id c' = c_run_id c0"
        using handle_end_present [OF False, of ?h c0 tk] by blast
      from Some have "c_run_id c0 = event_run_id ev"
        using inflight_inv by blast
      with c' snoc False Some show ?thesis
        by (auto simp: run_events_snoc split: if_splits)
    qed
  qed
qed

lemma end_counts:
  "length (filter (\<lambda>c. c_run_id c = r) (finished (run_events tk evs)))
     \<le> length (filter (\<lambda>ev. \<not> is_start ev \<and> event_run_id ev = r) evs)"
proof (induction evs rule: rev_induct)
  case Nil
  then show ?case by (simp add: run_events_nil init_handler_def)
next
  case (snoc ev evs)
  let ?h = "run_events tk evs"
  show ?case
  proof (cases "is_start ev")
    case True
    then obtain c' where "handle tk ?h ev = ?h\<lparr>calls := (calls ?h)(event_run_id ev \<mapsto> c')\<rparr>"
      using handle_start [of ev tk ?h] by blast
    with snoc True show ?thesis
      by (auto simp: run_events_snoc)
  next
    case False
    show ?thesis
    proof (cases "calls ?h (event_run_id ev)")
      case None
      with False snoc show ?thesis
        by (simp add: run_events_snoc handle_end_absent)
    next
      case (Some c0)
      then obtain c' where c': "handle tk ?h ev =
          \<lparr>calls = (calls ?h)(event_run_id ev := None), finished = finished ?h @ [c']\<rparr>"
          "c_run_id c' = c_run_id c0"
        using handle_end_present [OF False, of ?h c0 tk] by blast
      from Some have "c_run_id c0 = event_run_id ev"
        using inflight_inv by blast
      with c' snoc False Some show ?thesis
        by (auto simp: run_events_snoc)
    qed
  qed
qed

text \<open>
  C8. An end or error event for a run id that is not in flight changes nothing: the
  handler, and with it the finished sequence, stays as it was. An end or error event
  for a run id in flight removes its record from the in-flight map and appends exactly
  one record for that run to the finished sequence, after which a second end or error
  event for the same run id is again without effect. Over any sequence of events from
  the initial handler, every finished record has an end or error event of its run id, so
  a start that was never ended is not among them, and the finished records of a run id,
  together with the one that may still be in flight, are at most as many as its start
  events and at most as many as its end and error events.
\<close>

theorem tracer_at_most_once:
  "(calls h rid = None \<longrightarrow>
      on_llm_end tk response rid t1 h = h \<and> on_llm_error err rid now h = h) \<and>
   (calls h rid = Some c0 \<longrightarrow>
      (\<exists>c. on_llm_end tk response rid t1 h =
              \<lparr>calls = (calls h)(rid := None), finished = finished h @ [c]\<rparr> \<and>
            c_run_id c = c_run_id c0) \<and>
      (\<exists>c. on_llm_error err rid now h =
              \<lparr>calls = (calls h)(rid := None), finished = finished h @ [c]\<rparr> \<and>
            c_run_id c = c_run_id c0) \<and>
      on_llm_end tk response2 rid t2 (on_llm_end tk response rid t1 h) =
        on_llm_end tk response rid t1 h \<and>
      on_llm_error err2 rid t2 (on_llm_error err rid now h) = on_llm_error err rid now h) \<and>
   (\<forall>c \<in> set (finished (run_events tk evs)).
      \<exists>ev \<in> set evs. \<not> is_start ev \<and> event_run_id ev = c_run_id c) \<and>
   length (filter (\<lambda>c. c_run_id c = rid) (finished (run_events tk evs))) +
     (if calls (run_events tk evs) rid = None then 0 else 1)
     \<le> length (filter (\<lambda>ev. is_start ev \<and> event_run_id ev = rid) evs) \<and>
   length (filter (\<lambda>c. c_run_id c = rid) (finished (run_events tk evs)))
     \<le> length (filter (\<lambda>ev. \<not> is_start ev \<and> event_run_id ev = rid) evs)"
proof (intro conjI impI ballI)
  assume "calls h rid = None"
  then show "on_llm_end tk response rid t1 h = h" "on_llm_error err rid now h = h"
    by (simp_all add: on_llm_end_def end_common_absent on_llm_error_absent)
next
  assume a: "calls h rid = Some c0"
  then obtain c where c: "on_llm_end tk response rid t1 h =
        \<lparr>calls = (calls h)(rid := None), finished = finished h @ [c]\<rparr>" "c_run_id c = c_run_id c0"
    using end_common_present [of h rid c0 tk response t1] by (auto simp: on_llm_end_def)
  then show "\<exists>c. on_llm_end tk response rid t1 h =
              \<lparr>calls = (calls h)(rid := None), finished = finished h @ [c]\<rparr> \<and>
            c_run_id c = c_run_id c0"
    by blast
  from a show "\<exists>c. on_llm_error err rid now h =
              \<lparr>calls = (calls h)(rid := None), finished = finished h @ [c]\<rparr> \<and>
            c_run_id c = c_run_id c0"
    by (simp add: on_llm_error_present)
  from c have "calls (on_llm_end tk response rid t1 h) rid = None" by simp
  then show "on_llm_end tk response2 rid t2 (on_llm_end tk response rid t1 h) =
        on_llm_end tk response rid t1 h"
    by (simp add: on_llm_end_def end_common_absent)
  from a have "calls (on_llm_error err rid now h) rid = None"
    by (simp add: on_llm_error_present)
  then show "on_llm_error err2 rid t2 (on_llm_error err rid now h) = on_llm_error err rid now h"
    by (rule on_llm_error_absent)
next
  fix c assume "c \<in> set (finished (run_events tk evs))"
  then show "\<exists>ev \<in> set evs. \<not> is_start ev \<and> event_run_id ev = c_run_id c"
    by (rule finished_has_end)
next
  show "length (filter (\<lambda>c. c_run_id c = rid) (finished (run_events tk evs))) +
     (if calls (run_events tk evs) rid = None then 0 else 1)
     \<le> length (filter (\<lambda>ev. is_start ev \<and> event_run_id ev = rid) evs)"
    by (rule completion_counts)
  show "length (filter (\<lambda>c. c_run_id c = rid) (finished (run_events tk evs)))
     \<le> length (filter (\<lambda>ev. \<not> is_start ev \<and> event_run_id ev = rid) evs)"
    by (rule end_counts)
qed

theorem tracer_at_most_once_witness:
  "on_llm_end None \<lparr>res_llm_output = None, res_generations = []\<rparr> ''r2'' 3 init_handler =
     init_handler \<and>
   on_llm_error ''timeout'' ''r2'' 3 init_handler = init_handler \<and>
   length (filter (\<lambda>c. c_run_id c = ''r1'')
     (finished (run_events None
        [LlmStart [] [''hola''] ''r1'' None 1, LlmError ''timeout'' ''r1'' 2,
         LlmError ''timeout'' ''r1'' 3]))) \<le> 1"
proof -
  let ?evs = "[LlmStart [] [''hola''] ''r1'' None 1, LlmError ''timeout'' ''r1'' 2,
         LlmError ''timeout'' ''r1'' 3]"
  have absent: "calls init_handler ''r2'' = None"
    by (simp add: init_handler_def)
  from tracer_at_most_once [where h = init_handler and rid = "''r2''" and tk = None
      and response = "\<lparr>res_llm_output = None, res_generations = []\<rparr>" and ?t1.0 = 3
      and err = "''timeout''" and now = 3] absent
  have a: "on_llm_end None \<lparr>res_llm_output = None, res_generations = []\<rparr> ''r2'' 3 init_handler =
      init_handler \<and> on_llm_error ''timeout'' ''r2'' 3 init_handler = init_handler"
    by blast
  from tracer_at_most_once [where rid = "''r1''" and tk = None and evs = ?evs]
  have "length (filter (\<lambda>c. c_run_id c = ''r1'') (finished (run_events None ?evs))) +
      (if calls (run_events None ?evs) ''r1'' = None then 0 else 1)
      \<le> length (filter (\<lambda>ev. is_start ev \<and> event_run_id ev = ''r1'') ?evs)"
    by blast
  then have "length (filter (\<lambda>c. c_run_id c = ''r1'') (finished (run_events None ?evs))) \<le> 1"
    by (simp split: if_splits)
  with a show ?thesis by blast
qed

lemma sum_zero_usage_snoc:
  "zero_usage c \<Longrightarrow>
   total_prompt (cs @ [c]) = total_prompt cs \<and> total_completion (cs @ [c]) = total_completion cs \<and>
   total_tokens (cs @ [c]) = total_tokens cs \<and> total_cost (cs @ [c]) = total_cost cs"
  by (simp add: zero_usage_def total_prompt_def total_completion_def total_tokens_def
      total_cost_def)

text \<open>
  C10. An error event for a run in flight appends the record with only the end time,
  the latency and the error message set. In every state reached from the initial
  handler the records in flight carry the zero token counts and the zero cost set at
  start, so the record finalised by an error keeps them, and each total over the
  finished sequence (prompt, completion and total tokens, cost) is after the error
  event what it was before.
\<close>

theorem error_contributes_zero:
  "(calls h rid = Some c \<longrightarrow>
      on_llm_error err rid now h =
        \<lparr>calls = (calls h)(rid := None),
         finished = finished h @
           [c\<lparr>c_end_time := Some now,
              c_latency_ms := Some (py_int ((now - c_start_time c) * 1000)),
              c_error := Some err\<rparr>]\<rparr>) \<and>
   (calls (run_events tk evs) rid = Some c \<longrightarrow>
      (\<exists>c'. finished (on_llm_error err rid now (run_events tk evs)) =
              finished (run_events tk evs) @ [c'] \<and>
            c_error c' = Some err \<and> c_end_time c' = Some now \<and>
            c_prompt_tokens c' = 0 \<and> c_completion_tokens c' = 0 \<and>
            c_total_tokens c' = 0 \<and> c_cost_usd c' = 0)) \<and>
   total_prompt (finished (on_llm_error err rid now (run_events tk evs))) =
     total_prompt (finished (run_events tk evs)) \<and>
   total_completion (finished (on_llm_error err rid now (run_events tk evs))) =
     total_completion (finished (run_events tk evs)) \<and>
   total_tokens (finished (on_llm_error err rid now (run_events tk evs))) =
     total_tokens (finished (run_events tk evs)) \<and>
   total_cost (finished (on_llm_error err rid now (run_events tk evs))) =
     total_cost (finished (run_events tk evs))"
proof -
  let ?h = "run_events tk evs"
  have 1: "calls h rid = Some c \<longrightarrow>
      on_llm_error err rid now h =
        \<lparr>calls = (calls h)(rid := None),
         finished = finished h @
           [c\<lparr>c_end_time := Some now,
              c_latency_ms := Some (py_int ((now - c_start_time c) * 1000)),
              c_error := Some err\<rparr>]\<rparr>"
    by (simp add: on_llm_error_present)
  have 2: "calls ?h rid = Some c \<longrightarrow>
      (\<exists>c'. finished (on_llm_error err rid now ?h) = finished ?h @ [c'] \<and>
            c_error c' = Some err \<and> c_end_time c' = Some now \<and>
            c_prompt_tokens c' = 0 \<and> c_completion_tokens c' = 0 \<and>
            c_total_tokens c' = 0 \<and> c_cost_usd c' = 0)"
  proof
    assume a: "calls ?h rid = Some c"
    then have "zero_usage c" using inflight_inv by blast
    with a show "\<exists>c'. finished (on_llm_error err rid now ?h) = finished ?h @ [c'] \<and>
            c_error c' = Some err \<and> c_end_time c' = Some now \<and>
            c_prompt_tokens c' = 0 \<and> c_completion_tokens c' = 0 \<and>
            c_total_tokens c' = 0 \<and> c_cost_usd c' = 0"
      by (simp add: on_llm_error_present zero_usage_def)
  qed
  have 3: "total_prompt (finished (on_llm_error err rid now ?h)) = total_prompt (finished ?h) \<and>
      total_completion (finished (on_llm_error err rid now ?h)) = total_completion (finished ?h) \<and>
      total_tokens (finished (on_llm_error err rid now ?h)) = total_tokens (finished ?h) \<and>
      total_cost (finished (on_llm_error err rid now ?h)) = total_cost (finished ?h)"
  proof (cases "calls ?h rid")
    case None
    then show ?thesis by (simp add: on_llm_error_absent)
  next
    case (Some c0)
    then have "zero_usage c0" using inflight_inv by blast
    then have "zero_usage (c0\<lparr>c_end_time := Some now,
              c_latency_ms := Some (py_int ((now - c_start_time c0) * 1000)),
              c_error := Some err\<rparr>)"
      by (simp add: zero_usage_def)
    then show ?thesis
      using sum_zero_usage_snoc by (simp add: on_llm_error_present [OF Some])
  qed
  from 1 2 3 show ?thesis by blast
qed

theorem error_contributes_zero_witness:
  "total_tokens (finished (on_llm_error ''timeout'' ''r1'' 2
      (run_events None [LlmStart [] [''hola''] ''r1'' None 1]))) = 0 \<and>
   total_cost (finished (on_llm_error ''timeout'' ''r1'' 2
      (run_events None [LlmStart [] [''hola''] ''r1'' None 1]))) = 0"
  using error_contributes_zero [where tk = None and evs = "[LlmStart [] [''hola''] ''r1'' None 1]"
      and err = "''timeout''" and rid = "''r1''" and now = 2]
  by (simp add: run_events_def init_handler_def on_llm_start_def start_common_def
      total_tokens_def total_cost_def round8_def round_half_even_def)

subsection \<open>Cost accounting\<close>

lemma truthy_Some: "truthy (Some u) \<longleftrightarrow> u \<noteq> []"
  by (cases u) simp_all


lemma parse_usage_fields:
  "l_prompt_toks (parse_usage u s) = get_int_or u ''prompt_tokens'' 0"
  "l_comp_toks (parse_usage u s) = get_int_or u ''completion_tokens'' 0"
  "l_total_toks (parse_usage u s) =
     get_int_or u ''total_tokens''
       (get_int_or u ''prompt_tokens'' 0 + get_int_or u ''completion_tokens'' 0)"
  "l_usage (parse_usage u s) = l_usage s"
  "l_model (parse_usage u s) = l_model s"
  by (simp_all add: parse_usage_def Let_def)



lemma reread_model:
  "res_llm_output response = Some lo \<Longrightarrow> lo_model_name lo = Some n \<Longrightarrow> n \<noteq> [] \<Longrightarrow>
   l_model (reread_generation response s) = Some n"
  by (simp add: reread_generation_def Let_def py_or_def truthy_Some parse_usage_fields
      split: option.splits)




















end
